theory Spec2Isabelle
  imports Main "HOL-Library.Word"
begin

unbundle bit_operations_syntax

section \<open>The SimpleNFT contract\<close>

text \<open>
  The contract \<open>SimpleNFT\<close> is modelled as a record of its storage and one function per
  external function. A call either reverts (\<open>Inl\<close> with the error, the storage is then the
  one before the call) or succeeds (\<open>Inr\<close> with the new storage). Solidity 0.8 arithmetic
  on \<open>uint256\<close> is checked: an overflow reverts with \<open>Panic(0x11)\<close>.
\<close>

type_synonym address = "160 word"
type_synonym uint256 = "256 word"

datatype event =
    Transfer address address uint256
  | MetadataUpdate uint256
  | BatchMetadataUpdate uint256 uint256
  | ApprovalForAll address address bool

datatype error =
    OwnableUnauthorizedAccount address
  | MetadataIsFrozen
  | ERC721NonexistentToken uint256
  | ERC721InvalidReceiver address
  | ERC721InvalidSender address
  | ERC721IncorrectOwner address uint256 address
  | ERC721InsufficientApproval address uint256
  | Panic_0x11

record SimpleNFT =
  erc721_name :: string
  erc721_symbol :: string
  owner :: address
  owners :: "uint256 \<rightharpoonup> address"
  operatorApprovals :: "(address \<times> address) list"
  nextTokenId :: uint256
  baseTokenURI :: string
  metadataFrozen :: bool
  events :: "event list"

text \<open>
  The constructor: \<open>_nextTokenId = 1\<close> by its initialiser, the base URI and the frozen
  flag have the default values of their types, \<open>Ownable(initialOwner)\<close> records the owner.
\<close>

definition constructor :: "string \<Rightarrow> string \<Rightarrow> address \<Rightarrow> SimpleNFT" where
  "constructor name symbol initialOwner =
     \<lparr> erc721_name = name, erc721_symbol = symbol, owner = initialOwner,
       owners = Map.empty, operatorApprovals = [],
       nextTokenId = 1, baseTokenURI = [], metadataFrozen = False, events = [] \<rparr>"

text \<open>
  Modelled from the spec: the modifier \<open>onlyOwner\<close> of the inherited access-control
  library, whose body is not among the sources. Section 4.2: every administrative
  operation checks \<open>caller == owner\<close> before mutating state and on failure signals
  \<open>Unauthorized\<close> carrying the rejected caller's address.
\<close>

definition onlyOwner :: "address \<Rightarrow> SimpleNFT \<Rightarrow> error option" where
  "onlyOwner sender s =
     (if sender = owner s then None else Some (OwnableUnauthorizedAccount sender))"

text \<open>
  Modelled from the spec: \<open>_safeMint\<close> of the inherited token library, whose body is not
  among the sources. Section 4.1: the minted token's owner is the caller and a
  token-created notification is emitted. The library hands control to the receiving
  account before it returns: \<open>reenter\<close> is what that account does to the contract in the
  meantime (calls of its own, the identity for an account without code) and \<open>accepts\<close>
  is whether it acknowledges the token; a refusal reverts the whole call.
\<close>

definition safeMint ::
  "address \<Rightarrow> uint256 \<Rightarrow> (SimpleNFT \<Rightarrow> SimpleNFT) \<Rightarrow> bool \<Rightarrow> SimpleNFT \<Rightarrow> error + SimpleNFT" where
  "safeMint to tokenId reenter accepts s =
     (if to = 0 then Inl (ERC721InvalidReceiver 0)
      else if owners s tokenId \<noteq> None then Inl (ERC721InvalidSender 0)
      else
        let s1 = s\<lparr>owners := (owners s)(tokenId \<mapsto> to),
                    events := events s @ [Transfer 0 to tokenId]\<rparr>;
            s2 = reenter s1
        in if accepts then Inr s2 else Inl (ERC721InvalidReceiver to))"

text \<open>
  \<open>mint\<close>: \<open>uint256 tokenId = _nextTokenId++; _safeMint(msg.sender, tokenId);
  emit MetadataUpdate(tokenId); return tokenId;\<close>
\<close>

definition mint ::
  "address \<Rightarrow> (SimpleNFT \<Rightarrow> SimpleNFT) \<Rightarrow> bool \<Rightarrow> SimpleNFT \<Rightarrow> error + (uint256 \<times> SimpleNFT)" where
  "mint sender reenter accepts s =
     (let tokenId = nextTokenId s in
      if tokenId = - 1 then Inl Panic_0x11
      else
        case safeMint sender tokenId reenter accepts (s\<lparr>nextTokenId := tokenId + 1\<rparr>) of
          Inl e \<Rightarrow> Inl e
        | Inr s' \<Rightarrow> Inr (tokenId, s'\<lparr>events := events s' @ [MetadataUpdate tokenId]\<rparr>))"

definition baseURI :: "SimpleNFT \<Rightarrow> string" where
  "baseURI s = baseTokenURI s"

text \<open>
  \<open>setBaseURI\<close>: the modifier \<open>onlyOwner\<close> runs first, then
  \<open>require(!_metadataFrozen, "Metadata is frozen")\<close>.
\<close>

definition setBaseURI :: "address \<Rightarrow> string \<Rightarrow> SimpleNFT \<Rightarrow> error + SimpleNFT" where
  "setBaseURI sender uri s =
     (case onlyOwner sender s of
        Some e \<Rightarrow> Inl e
      | None \<Rightarrow>
          if metadataFrozen s then Inl MetadataIsFrozen
          else Inr (s\<lparr>baseTokenURI := uri,
                      events := events s @ [BatchMetadataUpdate 1 (- 1)]\<rparr>))"

definition freezeMetadata :: "address \<Rightarrow> SimpleNFT \<Rightarrow> error + SimpleNFT" where
  "freezeMetadata sender s =
     (case onlyOwner sender s of
        Some e \<Rightarrow> Inl e
      | None \<Rightarrow> Inr (s\<lparr>metadataFrozen := True\<rparr>))"

definition isMetadataFrozen :: "SimpleNFT \<Rightarrow> bool" where
  "isMetadataFrozen s = metadataFrozen s"

text \<open>\<open>totalSupply\<close>: \<open>_nextTokenId - 1\<close>, a checked subtraction.\<close>

definition totalSupply :: "SimpleNFT \<Rightarrow> error + uint256" where
  "totalSupply s = (if nextTokenId s = 0 then Inl Panic_0x11 else Inr (nextTokenId s - 1))"

text \<open>
  Modelled from the spec: \<open>setApprovalForAll\<close> and \<open>transferFrom\<close> of the inherited token
  library, whose bodies are not among the sources. Section 4.1: a transfer fails with
  \<open>NotFound\<close> if the token was never minted, with \<open>Unauthorized\<close> if the caller is
  neither the holder nor an approved operator, and otherwise updates the owner.
\<close>

definition isApprovedForAll :: "address \<Rightarrow> address \<Rightarrow> SimpleNFT \<Rightarrow> bool" where
  "isApprovedForAll holder operator s = ((holder, operator) \<in> set (operatorApprovals s))"

definition setApprovalForAll :: "address \<Rightarrow> address \<Rightarrow> bool \<Rightarrow> SimpleNFT \<Rightarrow> error + SimpleNFT" where
  "setApprovalForAll sender operator approved s =
     Inr (s\<lparr>operatorApprovals :=
               (if approved then (sender, operator) # operatorApprovals s
                else removeAll (sender, operator) (operatorApprovals s)),
             events := events s @ [ApprovalForAll sender operator approved]\<rparr>)"

definition transferFrom ::
  "address \<Rightarrow> address \<Rightarrow> address \<Rightarrow> uint256 \<Rightarrow> SimpleNFT \<Rightarrow> error + SimpleNFT" where
  "transferFrom sender from to tokenId s =
     (if to = 0 then Inl (ERC721InvalidReceiver 0)
      else case owners s tokenId of
        None \<Rightarrow> Inl (ERC721NonexistentToken tokenId)
      | Some holder \<Rightarrow>
          if \<not> (sender = holder \<or> isApprovedForAll holder sender s)
          then Inl (ERC721InsufficientApproval sender tokenId)
          else if holder \<noteq> from then Inl (ERC721IncorrectOwner from tokenId holder)
          else Inr (s\<lparr>owners := (owners s)(tokenId \<mapsto> to),
                      events := events s @ [Transfer from to tokenId]\<rparr>))"

subsection \<open>Sequences of calls\<close>

text \<open>
  A transaction is one external call. A \<open>Mint\<close> carries what the receiving account does
  while it holds control (a list of further calls, each of which may itself revert
  without undoing the others) and whether it acknowledges the token. A reverted call
  leaves the storage as it was.
\<close>

datatype call =
    Mint address "call list" bool
  | SetBaseURI address string
  | FreezeMetadata address
  | SetApprovalForAll address address bool
  | TransferFrom address address address uint256

fun exec :: "call \<Rightarrow> SimpleNFT \<Rightarrow> error + SimpleNFT"
  and run :: "call list \<Rightarrow> SimpleNFT \<Rightarrow> SimpleNFT" where
  "exec (Mint sender inner accepts) s =
     (case mint sender (\<lambda>t. run inner t) accepts s of
        Inl e \<Rightarrow> Inl e | Inr (tokenId, s') \<Rightarrow> Inr s')"
| "exec (SetBaseURI sender uri) s = setBaseURI sender uri s"
| "exec (FreezeMetadata sender) s = freezeMetadata sender s"
| "exec (SetApprovalForAll sender operator approved) s =
     setApprovalForAll sender operator approved s"
| "exec (TransferFrom sender from to tokenId) s = transferFrom sender from to tokenId s"
| "run [] s = s"
| "run (c # cs) s = run cs (case exec c s of Inl e \<Rightarrow> s | Inr s' \<Rightarrow> s')"

text \<open>The token IDs of the token-created notifications, in the order they were emitted.\<close>

fun minted :: "event list \<Rightarrow> uint256 list" where
  "minted [] = []"
| "minted (Transfer from to tokenId # es) =
     (if from = 0 then tokenId # minted es else minted es)"
| "minted (e # es) = minted es"

text \<open>
  The invariant of the storage: the token-created notifications carry the IDs from 1 up
  to the counter, the tokens that have a holder are the ones so announced, and no token
  is held by the zero address.
\<close>

definition wf_state :: "SimpleNFT \<Rightarrow> bool" where
  "wf_state s \<longleftrightarrow>
     map unat (minted (events s)) = [1..<unat (nextTokenId s)] \<and>
     1 \<le> unat (nextTokenId s) \<and>
     dom (owners s) = set (minted (events s)) \<and>
     0 \<notin> ran (owners s)"

subsection \<open>Token URIs\<close>

text \<open>
  Modelled from the spec: \<open>Strings.toString\<close> and \<open>tokenURI\<close> of the inherited libraries,
  whose bodies are not among the sources; the contract only overrides \<open>_baseURI\<close>.
  Section 4.1: \<open>tokenURI\<close> fails with \<open>NotFound\<close> if the token is unminted and otherwise
  returns the base URI followed by the token ID in decimal, without padding. The
  inherited function concatenates only when the base URI is not empty
  (\<open>bytes(baseURI).length > 0 ? string.concat(baseURI, tokenId.toString()) : ""\<close>): while
  no base URI is stored it answers the empty string, and the model does the same.
\<close>

fun toDecimal :: "nat \<Rightarrow> string" where
  "toDecimal n =
     (if n < 10 then [''0123456789'' ! n]
      else toDecimal (n div 10) @ [''0123456789'' ! (n mod 10)])"

declare toDecimal.simps [simp del]

definition toString :: "uint256 \<Rightarrow> string" where
  "toString v = toDecimal (unat v)"

definition tokenURI :: "uint256 \<Rightarrow> SimpleNFT \<Rightarrow> error + string" where
  "tokenURI tokenId s =
     (case owners s tokenId of
        None \<Rightarrow> Inl (ERC721NonexistentToken tokenId)
      | Some holder \<Rightarrow>
          Inr (if length (baseURI s) > 0 then baseURI s @ toString tokenId else []))"

text \<open>The number a string of decimal digits denotes.\<close>

definition digitValue :: "char \<Rightarrow> nat" where
  "digitValue c = of_char c - 48"

definition fromDecimal :: "string \<Rightarrow> nat" where
  "fromDecimal ds = foldl (\<lambda>acc c. 10 * acc + digitValue c) 0 ds"

section \<open>JavaScript strings and numbers\<close>

text \<open>
  A JavaScript string is a sequence of 16-bit code units. \<open>js\<close> is the string a literal
  of ASCII characters denotes.
\<close>

type_synonym jsstring = "16 word list"

definition js :: "string \<Rightarrow> jsstring" where
  "js s = map of_char s"

definition startsWith :: "jsstring \<Rightarrow> jsstring \<Rightarrow> bool" where
  "startsWith s p \<longleftrightarrow> take (length p) s = p"

text \<open>The string of an integer-valued number, as a template literal renders it.\<close>

definition numberToString :: "int \<Rightarrow> jsstring" where
  "numberToString i =
     (if i < 0 then js ''-'' @ js (toDecimal (nat (- i))) else js (toDecimal (nat i)))"

text \<open>\<open>x | 0\<close>: the number wrapped to a signed 32-bit integer.\<close>

definition ToInt32 :: "int \<Rightarrow> int" where
  "ToInt32 x = (x + 2 ^ 31) mod 2 ^ 32 - 2 ^ 31"

text \<open>
  \<open>a % b\<close> on integer-valued numbers with \<open>b\<close> not zero: the remainder has the sign of the
  dividend.
\<close>

definition js_rem :: "int \<Rightarrow> int \<Rightarrow> int" where
  "js_rem a b = (if a < 0 then - ((- a) mod \<bar>b\<bar>) else a mod \<bar>b\<bar>)"

text \<open>\<open>String.prototype.trim\<close>: white space and line terminators are removed at both ends.\<close>

definition isWhiteSpace :: "16 word \<Rightarrow> bool" where
  "isWhiteSpace c \<longleftrightarrow>
     c \<in> set [0x09, 0x0A, 0x0B, 0x0C, 0x0D, 0x20, 0xA0, 0x1680, 0x2028, 0x2029,
              0x202F, 0x205F, 0x3000, 0xFEFF] \<or> (0x2000 \<le> c \<and> c \<le> 0x200A)"

definition trim :: "jsstring \<Rightarrow> jsstring" where
  "trim s = rev (dropWhile isWhiteSpace (rev (dropWhile isWhiteSpace s)))"

text \<open>The lines of a multi-line template literal, joined by line feeds.\<close>

fun lines :: "jsstring list \<Rightarrow> jsstring" where
  "lines [] = []"
| "lines [l] = l"
| "lines (l # ls) = l @ [0x0A] @ lines ls"

section \<open>The image endpoint\<close>

text \<open>
  \<open>Array.from(tokenId)\<close> splits the string into code points, so a high surrogate
  followed by a low surrogate is one element; \<open>char.charCodeAt(0)\<close> is the first code
  unit of the element.
\<close>

definition isHighSurrogate :: "16 word \<Rightarrow> bool" where
  "isHighSurrogate u \<longleftrightarrow> 0xD800 \<le> u \<and> u \<le> 0xDBFF"

definition isLowSurrogate :: "16 word \<Rightarrow> bool" where
  "isLowSurrogate u \<longleftrightarrow> 0xDC00 \<le> u \<and> u \<le> 0xDFFF"

fun charCodes :: "jsstring \<Rightarrow> 16 word list" where
  "charCodes [] = []"
| "charCodes [u] = [u]"
| "charCodes (u # v # us) =
     (if isHighSurrogate u \<and> isLowSurrogate v then u # charCodes us
      else u # charCodes (v # us))"

text \<open>
  \<open>Array.from(tokenId).reduce((acc, char) => ((acc << 5) - acc + char.charCodeAt(0)) | 0, 0)\<close>:
  the shift yields a signed 32-bit integer, the subtraction and the addition are exact,
  and \<open>| 0\<close> wraps the sum. Both \<open>generateColor\<close> and \<open>generatePattern\<close> compute it.
\<close>

definition hash :: "jsstring \<Rightarrow> int" where
  "hash tokenId =
     foldl (\<lambda>acc c. ToInt32 (ToInt32 (acc * 2 ^ 5) - acc + uint c)) 0 (charCodes tokenId)"

definition hue :: "jsstring \<Rightarrow> int" where
  "hue tokenId = js_rem \<bar>hash tokenId\<bar> 360"

definition generateColor :: "jsstring \<Rightarrow> jsstring" where
  \<open>generateColor tokenId = js ''hsl('' @ numberToString (hue tokenId) @ js '', 70%, 60%)''\<close>

definition numCircles :: "jsstring \<Rightarrow> int" where
  "numCircles tokenId = js_rem \<bar>hash tokenId\<bar> 5 + 3"

definition radius :: "jsstring \<Rightarrow> int" where
  "radius tokenId = 50 + js_rem (hash tokenId) 30"

text \<open>
  The centre of circle \<open>i\<close> of \<open>n\<close> is computed in floating point
  (\<open>250 + Math.cos(i * (2 * Math.PI / n)) * 100\<close> and the same with \<open>Math.sin\<close>). The text
  the two numbers are rendered to is a parameter of the model: \<open>coord i n\<close>.
\<close>

definition circle :: "jsstring \<Rightarrow> jsstring \<Rightarrow> jsstring \<Rightarrow> jsstring" where
  \<open>circle cx cy r = lines
     [ [],
       js ''      <circle '',
       js ''        cx="'' @ cx @ js ''" '',
       js ''        cy="'' @ cy @ js ''" '',
       js ''        r="'' @ r @ js ''" '',
       js ''        fill="rgba(255,255,255,0.2)"'',
       js ''      />'',
       js ''    '' ]\<close>

definition generatePattern :: "(nat \<Rightarrow> nat \<Rightarrow> jsstring \<times> jsstring) \<Rightarrow> jsstring \<Rightarrow> jsstring" where
  "generatePattern coord tokenId =
     (let n = nat (numCircles tokenId) in
      foldl (\<lambda>patterns i.
               patterns @ circle (fst (coord i n)) (snd (coord i n))
                                 (numberToString (radius tokenId)))
            [] [0..<n])"

definition svg :: "(nat \<Rightarrow> nat \<Rightarrow> jsstring \<times> jsstring) \<Rightarrow> jsstring \<Rightarrow> jsstring" where
  \<open>svg coord tokenId =
     (let backgroundColor = generateColor tokenId in
      trim (lines
       [ [],
         js ''      <svg '',
         js ''        width="500" '',
         js ''        height="500" '',
         js ''        viewBox="0 0 500 500" '',
         js ''        xmlns="http://www.w3.org/2000/svg"'',
         js ''        preserveAspectRatio="xMidYMid meet"'',
         js ''      >'',
         js ''        <defs>'',
         js ''          <linearGradient id="grad" x1="0%" y1="0%" x2="100%" y2="100%">'',
         js ''            <stop offset="0%" style="stop-color:'' @ backgroundColor
           @ js '';stop-opacity:1" />'',
         js ''            <stop offset="100%" style="stop-color:'' @ backgroundColor
           @ js '';stop-opacity:0.7" />'',
         js ''          </linearGradient>'',
         js ''        </defs>'',
         js ''        '',
         js ''        <!-- Background -->'',
         js ''        <rect width="100%" height="100%" fill="url(#grad)"/>'',
         js ''        '',
         js ''        <!-- Pattern -->'',
         js ''        '' @ generatePattern coord tokenId,
         js ''        '',
         js ''        <!-- Token ID -->'',
         js ''        <text '',
         js ''          x="50%" '',
         js ''          y="50%" '',
         js ''          dominant-baseline="middle" '',
         js ''          text-anchor="middle" '',
         js ''          font-family="Arial, sans-serif" '',
         js ''          font-size="48" '',
         js ''          font-weight="bold" '',
         js ''          fill="white"'',
         js ''          filter="drop-shadow(0 2px 4px rgba(0,0,0,0.2))"'',
         js ''        >'',
         js ''          #'' @ tokenId,
         js ''        </text>'',
         js ''      </svg>'',
         js ''    '' ]))\<close>

text \<open>
  The specification of the image synthesizer, in its own words: the hash folds
  \<open>hash * 31 + charCode\<close> with signed 32-bit wrap-around, the hue is \<open>abs(hash) mod 360\<close>,
  there are \<open>3 + (abs(hash) mod 5)\<close> circles, and the radius is the base radius plus
  \<open>hash mod 30\<close>.
\<close>

definition spec_hash :: "jsstring \<Rightarrow> int" where
  "spec_hash tokenId = foldl (\<lambda>h c. ToInt32 (h * 31 + uint c)) 0 (charCodes tokenId)"

definition spec_hue :: "jsstring \<Rightarrow> int" where
  "spec_hue tokenId = \<bar>spec_hash tokenId\<bar> mod 360"

definition spec_numCircles :: "jsstring \<Rightarrow> int" where
  "spec_numCircles tokenId = 3 + \<bar>spec_hash tokenId\<bar> mod 5"

definition spec_radius :: "jsstring \<Rightarrow> int" where
  "spec_radius tokenId = 50 + spec_hash tokenId mod 30"

subsection \<open>Responses\<close>

datatype jsvalue = JString jsstring | JNumber int

fun typeof :: "jsvalue \<Rightarrow> string" where
  "typeof (JString s) = ''string''"
| "typeof (JNumber n) = ''number''"

record attribute =
  trait_type :: jsstring
  attr_value :: jsvalue
  display_type :: "jsstring option"

record NFTMetadata =
  md_name :: jsstring
  md_description :: jsstring
  md_image :: jsstring
  md_external_url :: jsstring
  md_attributes :: "attribute list"

datatype body =
    Text jsstring
  | JsonError jsstring
  | JsonThrown
  | JsonMetadata NFTMetadata
  | JsonUploaded jsstring jsstring

record response =
  status :: nat
  headers :: "(string \<times> string) list"
  body :: body

definition image_GET :: "(nat \<Rightarrow> nat \<Rightarrow> jsstring \<times> jsstring) \<Rightarrow> jsstring \<Rightarrow> response" where
  "image_GET coord tokenId =
     \<lparr> status = 200,
       headers = [(''Content-Type'', ''image/svg+xml''),
                  (''Cache-Control'', ''public, max-age=31536000, immutable'')],
       body = Text (svg coord tokenId) \<rparr>"

text \<open>The directives of a \<open>Cache-Control\<close> value: the comma-separated items, without blanks.\<close>

fun split_on :: "'a \<Rightarrow> 'a list \<Rightarrow> 'a list list" where
  "split_on sep [] = [[]]"
| "split_on sep (x # xs) =
     (if x = sep then [] # split_on sep xs
      else case split_on sep xs of [] \<Rightarrow> [[x]] | y # ys \<Rightarrow> (x # y) # ys)"

definition directives :: "string \<Rightarrow> string list" where
  "directives v = map (filter (\<lambda>c. c \<noteq> CHR '' '')) (split_on CHR '','' v)"

definition cache_directives :: "response \<Rightarrow> string list" where
  "cache_directives r =
     (case map_of (headers r) ''Cache-Control'' of None \<Rightarrow> [] | Some v \<Rightarrow> directives v)"

section \<open>The metadata endpoints\<close>

text \<open>
  What the handlers read from outside: the two environment variables, the clock, the
  lower-casing of the runtime, and the asset store. \<open>getStorage\<close> tells whether the
  storage handle is obtained, \<open>listAll\<close> gives the references below a path and
  \<open>getDownloadURL\<close> the retrievable URL of the object at a path, \<open>None\<close> when the call
  is rejected; \<open>uploadBytes\<close> tells whether a write to a path goes through.
\<close>

record StorageReference =
  item_name :: jsstring
  fullPath :: jsstring

record env =
  NEXT_PUBLIC_API_URL :: "jsstring option"
  NEXT_PUBLIC_WEBSITE_URL :: "jsstring option"
  Date_now :: int
  toLowerCase :: "jsstring \<Rightarrow> jsstring"
  getStorage :: bool
  listAll :: "jsstring \<Rightarrow> StorageReference list option"
  getDownloadURL :: "jsstring \<Rightarrow> jsstring option"
  uploadBytes :: "jsstring \<Rightarrow> bool"

text \<open>
  \<open>x || d\<close> on a string that may be absent: \<open>d\<close> when \<open>x\<close> is absent or empty.
  \<open>!x\<close> is true in the same two cases; where it is false, \<open>x\<close> is a string (\<open>the x\<close>).
\<close>

definition or_else :: "jsstring option \<Rightarrow> jsstring \<Rightarrow> jsstring" where
  "or_else x d = (case x of None \<Rightarrow> d | Some v \<Rightarrow> if v = [] then d else v)"

definition falsy :: "jsstring option \<Rightarrow> bool" where
  "falsy x \<longleftrightarrow> x = None \<or> x = Some []"

text \<open>The constants of the configuration module, as the server evaluates them.\<close>

definition BASE_URL :: "env \<Rightarrow> jsstring" where
  "BASE_URL e = or_else (NEXT_PUBLIC_WEBSITE_URL e) (js ''http://localhost:3000'')"

definition API_URL :: "env \<Rightarrow> jsstring" where
  "API_URL e = or_else (NEXT_PUBLIC_API_URL e) (js ''http://localhost:3000'')"

text \<open>
  \<open>validateMetadata\<close>: a string is truthy when it is not empty; \<open>attributes\<close> is an array
  by its type.
\<close>

definition validateMetadata :: "NFTMetadata \<Rightarrow> bool" where
  "validateMetadata metadata \<longleftrightarrow>
     md_name metadata \<noteq> [] \<and>
     md_description metadata \<noteq> [] \<and>
     md_image metadata \<noteq> [] \<and>
     md_external_url metadata \<noteq> [] \<and>
     list_all (\<lambda>attr. trait_type attr \<noteq> [] \<and>
                      (typeof (attr_value attr) = ''string'' \<or>
                       typeof (attr_value attr) = ''number''))
              (md_attributes metadata)"

text \<open>
  \<open>findUploadedImage\<close>: three nested \<open>try\<close> blocks, each of which turns a failure into
  \<open>null\<close>.
\<close>

definition findUploadedImage :: "env \<Rightarrow> jsstring \<Rightarrow> jsstring option" where
  "findUploadedImage e contractAddress =
     (if \<not> getStorage e then None
      else
        let collectionPath = js ''collections/'' @ toLowerCase e contractAddress in
        case listAll e collectionPath of
          None \<Rightarrow> None
        | Some items \<Rightarrow>
            (case List.find (\<lambda>item. startsWith (item_name item) (js ''collection-'')) items of
               None \<Rightarrow> None
             | Some collectionImage \<Rightarrow>
                 (case getDownloadURL e (fullPath collectionImage) of
                    None \<Rightarrow> None
                  | Some downloadURL \<Rightarrow> Some downloadURL)))"

text \<open>The object literal both handlers build.\<close>

definition metadata_of :: "jsstring \<Rightarrow> jsstring \<Rightarrow> int \<Rightarrow> jsstring option \<Rightarrow> jsstring \<Rightarrow> NFTMetadata" where
  "metadata_of apiUrl websiteUrl now uploadedImage tokenId =
     \<lparr> md_name = js ''MyNFT #'' @ tokenId,
       md_description = js ''NFT #'' @ tokenId @ js '' on the Nexus network.'',
       md_image = or_else uploadedImage (apiUrl @ js ''/api/image/'' @ tokenId),
       md_external_url = websiteUrl @ js ''/nft/'' @ tokenId,
       md_attributes =
         [ \<lparr> trait_type = js ''Token ID'', attr_value = JString tokenId,
             display_type = None \<rparr>,
           \<lparr> trait_type = js ''Image Type'',
             attr_value =
               JString (if \<not> falsy uploadedImage then js ''Uploaded'' else js ''Generated''),
             display_type = None \<rparr>,
           \<lparr> trait_type = js ''Created'', attr_value = JNumber (now div 1000),
             display_type = Some (js ''date'') \<rparr> ] \<rparr>"

text \<open>
  The handler of \<open>/api/metadata/[tokenId]\<close>: the token ID is the path segment, the
  contract address the query parameter \<open>contract\<close>.
\<close>

definition metadata_GET :: "env \<Rightarrow> jsstring option \<Rightarrow> jsstring \<Rightarrow> response" where
  "metadata_GET e contractAddress tokenId =
     (if falsy contractAddress
      then \<lparr> status = 400, headers = [],
             body = JsonError (js ''Contract address is required'') \<rparr>
      else
        let uploadedImage = findUploadedImage e (the contractAddress);
            metadata = metadata_of (API_URL e) (BASE_URL e) (Date_now e) uploadedImage tokenId
        in if \<not> validateMetadata metadata
           then \<lparr> status = 500, headers = [],
                  body = JsonError (js ''Invalid metadata structure'') \<rparr>
           else \<lparr> status = 200,
                  headers = [(''Content-Type'', ''application/json''),
                             (''Cache-Control'', ''no-cache, no-store, must-revalidate'')],
                  body = JsonMetadata metadata \<rparr>)"

text \<open>
  The handler of \<open>/api/metadata\<close>: both the contract address and the token ID are query
  parameters. Its own \<open>findUploadedImage\<close> returns the URL from inside the inner \<open>try\<close>.
\<close>

definition findUploadedImage_query :: "env \<Rightarrow> jsstring \<Rightarrow> jsstring option" where
  "findUploadedImage_query e contractAddress =
     (if \<not> getStorage e then None
      else
        let collectionPath = js ''collections/'' @ toLowerCase e contractAddress in
        case listAll e collectionPath of
          None \<Rightarrow> None
        | Some items \<Rightarrow>
            (case List.find (\<lambda>item. startsWith (item_name item) (js ''collection-'')) items of
               None \<Rightarrow> None
             | Some collectionImage \<Rightarrow> getDownloadURL e (fullPath collectionImage)))"

definition metadata_query_GET :: "env \<Rightarrow> jsstring option \<Rightarrow> jsstring option \<Rightarrow> response" where
  "metadata_query_GET e contractAddress tokenId =
     (if falsy contractAddress
      then \<lparr> status = 400, headers = [],
             body = JsonError (js ''Contract address is required'') \<rparr>
      else if falsy tokenId
      then \<lparr> status = 400, headers = [], body = JsonError (js ''Token ID is required'') \<rparr>
      else
        let apiUrl = or_else (NEXT_PUBLIC_API_URL e) (js ''http://localhost:3000'');
            websiteUrl = or_else (NEXT_PUBLIC_WEBSITE_URL e) (js ''http://localhost:3000'');
            uploadedImage = findUploadedImage_query e (the contractAddress);
            metadata = metadata_of apiUrl websiteUrl (Date_now e) uploadedImage (the tokenId)
        in \<lparr> status = 200,
             headers = [(''Content-Type'', ''application/json''),
                        (''Cache-Control'', ''no-cache, no-store, must-revalidate'')],
             body = JsonMetadata metadata \<rparr>)"

section \<open>The upload endpoint\<close>

text \<open>
  A field of the multipart form is absent, a string or a file. A file is always truthy,
  a string is truthy when it is not empty. Reading \<open>type\<close> of a string or calling
  \<open>toLowerCase\<close> on a file throws, and the handler's \<open>catch\<close> answers 500.
\<close>

record File =
  file_name :: jsstring
  file_type :: jsstring
  file_bytes :: "8 word list"

datatype form_entry = FormString jsstring | FormFile File

fun falsy_entry :: "form_entry option \<Rightarrow> bool" where
  "falsy_entry None = True"
| "falsy_entry (Some (FormString v)) = (v = [])"
| "falsy_entry (Some (FormFile f)) = False"

text \<open>\<open>file.name.replace(/[^a-zA-Z0-9.-]/g, '')\<close>: every code unit outside the class is removed.\<close>

definition allowed :: "16 word \<Rightarrow> bool" where
  "allowed c \<longleftrightarrow>
     (of_char CHR ''a'' \<le> c \<and> c \<le> of_char CHR ''z'') \<or>
     (of_char CHR ''A'' \<le> c \<and> c \<le> of_char CHR ''Z'') \<or>
     (of_char CHR ''0'' \<le> c \<and> c \<le> of_char CHR ''9'') \<or>
     c = of_char CHR ''.'' \<or> c = of_char CHR ''-''"

definition sanitize :: "jsstring \<Rightarrow> jsstring" where
  "sanitize fileName = filter allowed fileName"

definition storagePath :: "env \<Rightarrow> jsstring \<Rightarrow> jsstring \<Rightarrow> jsstring" where
  "storagePath e contractAddress fileName =
     (let sanitizedFileName = sanitize fileName;
          filename = js ''collection-'' @ sanitizedFileName
      in js ''collections/'' @ toLowerCase e contractAddress @ js ''/'' @ filename)"

text \<open>
  \<open>ref(storage, storagePath)\<close> of the asset store, whose body is not among the sources:
  the full path of the reference is the path it is made from, split at the slashes,
  with the empty segments dropped and the others joined by slashes again.
\<close>

fun join_with :: "'a \<Rightarrow> 'a list list \<Rightarrow> 'a list" where
  "join_with sep [] = []"
| "join_with sep [component] = component"
| "join_with sep (component # components) = component @ sep # join_with sep components"

definition ref_fullPath :: "jsstring \<Rightarrow> jsstring" where
  "ref_fullPath path =
     join_with (of_char CHR ''/'')
       (filter (\<lambda>component. length component > 0) (split_on (of_char CHR ''/'') path))"

text \<open>
  The handler returns its response; the second component is the object it has written
  to the asset store, if any: the full path of the reference it has uploaded to
  (\<open>uploadResult.ref.fullPath\<close>, which the response reports as \<open>path\<close>) and the file. The
  token ID of the form only goes into the custom metadata of the object.
\<close>

definition upload_POST ::
  "env \<Rightarrow> form_entry option \<Rightarrow> form_entry option \<Rightarrow> form_entry option
     \<Rightarrow> response \<times> (jsstring \<times> File) option" where
  "upload_POST e file tokenId contractAddress =
     (if falsy_entry file
      then (\<lparr> status = 400, headers = [], body = JsonError (js ''No file uploaded'') \<rparr>, None)
      else if falsy_entry contractAddress
      then (\<lparr> status = 400, headers = [],
              body = JsonError (js ''Contract address is required'') \<rparr>, None)
      else
        case file of
          Some (FormFile f) \<Rightarrow>
            if \<not> startsWith (file_type f) (js ''image/'')
            then (\<lparr> status = 400, headers = [],
                    body = JsonError (js ''File must be an image'') \<rparr>, None)
            else
              (case contractAddress of
                 Some (FormString address) \<Rightarrow>
                   let path = storagePath e address (file_name f) in
                   if \<not> getStorage e then (\<lparr> status = 500, headers = [], body = JsonThrown \<rparr>, None)
                   else
                     let fullPath = ref_fullPath path in
                     if \<not> uploadBytes e fullPath
                     then (\<lparr> status = 500, headers = [], body = JsonThrown \<rparr>, None)
                     else
                       (case getDownloadURL e fullPath of
                          None \<Rightarrow>
                            (\<lparr> status = 500, headers = [], body = JsonThrown \<rparr>,
                             Some (fullPath, f))
                        | Some downloadURL \<Rightarrow>
                            (\<lparr> status = 200, headers = [],
                               body = JsonUploaded downloadURL fullPath \<rparr>,
                             Some (fullPath, f)))
               | _ \<Rightarrow> (\<lparr> status = 500, headers = [], body = JsonThrown \<rparr>, None))
        | _ \<Rightarrow> (\<lparr> status = 500, headers = [], body = JsonThrown \<rparr>, None))"

section \<open>Notions used in the statements\<close>

text \<open>
  The values of the attribute named \<open>Image Type\<close>, and a response that serves a
  metadata document with a given image URL and image type.
\<close>

definition imageType :: "NFTMetadata \<Rightarrow> jsvalue list" where
  "imageType md =
     map attr_value (filter (\<lambda>a. trait_type a = js ''Image Type'') (md_attributes md))"

definition serves :: "response \<Rightarrow> jsstring \<Rightarrow> jsstring \<Rightarrow> bool" where
  "serves r url kind \<longleftrightarrow>
     status r = 200 \<and>
     (case body r of
        JsonMetadata md \<Rightarrow> md_image md = url \<and> imageType md = [JString kind]
      | _ \<Rightarrow> False)"

text \<open>
  A concrete environment, on which the statements are tried: lower-casing of ASCII
  letters, a store that holds two objects for one address, rejects the listing for
  another and is empty elsewhere, and a file whose name tries to leave its directory.
\<close>

definition ascii_lower :: "jsstring \<Rightarrow> jsstring" where
  "ascii_lower s = map (\<lambda>c. if 0x41 \<le> c \<and> c \<le> 0x5A then c + 0x20 else c) s"

definition example_env :: env where
  "example_env =
     \<lparr> NEXT_PUBLIC_API_URL = Some (js ''https://api.example''),
       NEXT_PUBLIC_WEBSITE_URL = None,
       Date_now = 1700000000123,
       toLowerCase = ascii_lower,
       getStorage = True,
       listAll = (\<lambda>path. if path = js ''collections/0xab''
                          then Some [\<lparr> item_name = js ''notes.txt'',
                                       fullPath = js ''collections/0xab/notes.txt'' \<rparr>,
                                     \<lparr> item_name = js ''collection-cat.png'',
                                       fullPath = js ''collections/0xab/collection-cat.png'' \<rparr>]
                          else if path = js ''collections/0xcd'' then None
                          else Some []),
       getDownloadURL = (\<lambda>path. Some (js ''https://cdn.example/'' @ path)),
       uploadBytes = (\<lambda>path. True) \<rparr>"

definition example_file :: File where
  "example_file =
     \<lparr> file_name = js ''../../My Cat (1).png'', file_type = js ''image/png'',
       file_bytes = [0x89, 0x50, 0x4E, 0x47] \<rparr>"

section \<open>Properties of the contract\<close>

lemma minted_append: "minted (xs @ ys) = minted xs @ minted ys"
  by (induction xs rule: minted.induct) auto

lemma unat_succ: "(n :: uint256) \<noteq> - 1 \<Longrightarrow> unat (n + 1) = Suc (unat n)"
  by (metis add.commute unatSuc add_eq_0_iff2)

lemma wf_constructor: "wf_state (constructor n sy ow)"
  by (simp add: wf_state_def constructor_def)

lemma wf_events_irrelevant:
  "wf_state s \<Longrightarrow> minted [e] = [] \<Longrightarrow> wf_state (s\<lparr>events := events s @ [e]\<rparr>)"
  by (simp add: wf_state_def minted_append)

lemma wf_mint:
  assumes wf: "wf_state s" and re: "\<And>t. wf_state t \<Longrightarrow> wf_state (reenter t)"
    and m: "mint sender reenter accepts s = Inr (tokenId, s')"
  shows "wf_state s'"
proof -
  let ?n = "nextTokenId s"
  let ?s1 = "s\<lparr>nextTokenId := ?n + 1, owners := (owners s)(?n \<mapsto> sender),
                events := events s @ [Transfer 0 sender ?n]\<rparr>"
  from m have nmax: "?n \<noteq> - 1" and sender: "sender \<noteq> 0" and fresh: "owners s ?n = None"
    and s': "s' = (reenter ?s1)\<lparr>events := events (reenter ?s1) @ [MetadataUpdate ?n]\<rparr>"
    by (auto simp: mint_def safeMint_def Let_def split: if_splits sum.splits)
  have "0 \<notin> ran ((owners s)(?n \<mapsto> sender))"
    using wf sender fresh by (simp add: wf_state_def)
  then have "wf_state ?s1"
    using wf nmax by (simp add: wf_state_def minted_append unat_succ)
  then have "wf_state (reenter ?s1)" by (rule re)
  then show ?thesis unfolding s' by (rule wf_events_irrelevant) simp
qed

lemma wf_setBaseURI: "wf_state s \<Longrightarrow> setBaseURI a u s = Inr s' \<Longrightarrow> wf_state s'"
  by (cases "onlyOwner a s"; cases "metadataFrozen s")
     (simp_all add: setBaseURI_def, clarsimp simp: wf_state_def minted_append)

lemma wf_freezeMetadata: "wf_state s \<Longrightarrow> freezeMetadata a s = Inr s' \<Longrightarrow> wf_state s'"
  by (cases "onlyOwner a s") (simp_all add: freezeMetadata_def, clarsimp simp: wf_state_def)

lemma wf_setApprovalForAll: "wf_state s \<Longrightarrow> setApprovalForAll a b c s = Inr s' \<Longrightarrow> wf_state s'"
  unfolding setApprovalForAll_def wf_state_def by (clarsimp simp: minted_append)

lemma wf_transferFrom:
  assumes wf: "wf_state s" and t: "transferFrom a f t i s = Inr s'"
  shows "wf_state s'"
proof -
  from t obtain h where h: "owners s i = Some h" and to: "t \<noteq> 0" and f: "f = h"
    and s': "s' = s\<lparr>owners := (owners s)(i \<mapsto> t), events := events s @ [Transfer f t i]\<rparr>"
    by (auto simp: transferFrom_def split: option.splits if_splits)
  from wf h have "h \<noteq> 0" by (auto simp: wf_state_def ran_def)
  with f have f0: "f \<noteq> 0" by simp
  have d: "insert i (set (minted (events s))) = set (minted (events s))"
    using wf h by (auto simp: wf_state_def)
  have r: "0 \<notin> ran ((owners s)(i \<mapsto> t))"
    using wf to by (auto simp: wf_state_def ran_def split: if_splits)
  show ?thesis using wf r unfolding s' wf_state_def
    by (simp add: d f0 minted_append)
qed

lemma wf_exec_run:
  "(wf_state s \<longrightarrow> (\<forall>s'. exec c s = Inr s' \<longrightarrow> wf_state s'))"
  "(wf_state s \<longrightarrow> wf_state (run cs s))"
proof (induction c s and cs s rule: exec_run.induct)
  case (1 sender inner accepts s)
  then show ?case
    by (auto split: sum.splits dest!: wf_mint[rotated 2])
next
  case (7 c cs s)
  then show ?case by (auto split: sum.splits)
qed (auto dest: wf_setBaseURI wf_freezeMetadata wf_setApprovalForAll wf_transferFrom)

lemma wf_run: "wf_state s \<Longrightarrow> wf_state (run cs s)"
  using wf_exec_run(2) by blast

lemma wf_reachable: "wf_state (run cs (constructor n sy ow))"
  by (rule wf_run) (rule wf_constructor)

lemma wf_count: "wf_state s \<Longrightarrow> unat (nextTokenId s) = Suc (length (minted (events s)))"
proof -
  assume wf: "wf_state s"
  then have "map unat (minted (events s)) = [1..<unat (nextTokenId s)]"
    and pos: "1 \<le> unat (nextTokenId s)"
    by (simp_all only: wf_state_def)
  then have "length (minted (events s)) = unat (nextTokenId s) - 1"
    by (metis length_map length_upt)
  with pos show ?thesis by simp
qed

lemma wf_totalSupply:
  assumes wf: "wf_state s"
  shows "totalSupply s = Inr (of_nat (length (minted (events s))))"
proof -
  have n: "unat (nextTokenId s) = Suc (length (minted (events s)))" using wf by (rule wf_count)
  then have nz: "nextTokenId s \<noteq> 0" by auto
  have "nextTokenId s = of_nat (Suc (length (minted (events s))))"
    using n by (metis of_nat_unat ucast_id)
  then have "nextTokenId s - 1 = of_nat (length (minted (events s)))" by simp
  with nz show ?thesis by (simp add: totalSupply_def)
qed

lemma mint_Inr:
  assumes "mint sender reenter accepts s = Inr (tokenId, s')"
  obtains t where "tokenId = nextTokenId s" and "tokenId \<noteq> - 1"
    and "events t = events s @ [Transfer 0 sender tokenId]"
    and "s' = (reenter t)\<lparr>events := events (reenter t) @ [MetadataUpdate tokenId]\<rparr>"
proof -
  let ?t = "s\<lparr>nextTokenId := nextTokenId s + 1,
               owners := (owners s)(nextTokenId s \<mapsto> sender),
               events := events s @ [Transfer 0 sender (nextTokenId s)]\<rparr>"
  from assms have "tokenId = nextTokenId s" "tokenId \<noteq> - 1"
    "s' = (reenter ?t)\<lparr>events := events (reenter ?t) @ [MetadataUpdate tokenId]\<rparr>"
    by (auto simp: mint_def safeMint_def Let_def split: if_splits sum.splits)
  moreover have "events ?t = events s @ [Transfer 0 sender (nextTokenId s)]" by simp
  ultimately show ?thesis using that[of ?t] by simp
qed

lemma events_grow:
  "(\<forall>s'. exec c s = Inr s' \<longrightarrow> (\<exists>es. events s' = events s @ es))"
  "(\<exists>es. events (run cs s) = events s @ es)"
proof (induction c s and cs s rule: exec_run.induct)
  case (1 sender inner accepts s)
  show ?case
  proof (intro allI impI)
    fix s' assume "exec (Mint sender inner accepts) s = Inr s'"
    then obtain tokenId where "mint sender (run inner) accepts s = Inr (tokenId, s')"
      by (auto split: sum.splits)
    then obtain t where t: "events t = events s @ [Transfer 0 sender tokenId]"
      and s': "s' = (run inner t)\<lparr>events := events (run inner t) @ [MetadataUpdate tokenId]\<rparr>"
      by (rule mint_Inr)
    from 1 obtain es where "events (run inner t) = events t @ es" by blast
    with t s' have "events s' = events s @ ([Transfer 0 sender tokenId] @ es @ [MetadataUpdate tokenId])"
      by simp
    then show "\<exists>es. events s' = events s @ es" ..
  qed
next
  case (7 c cs s)
  then show ?case by (cases "exec c s") (simp, simp, metis append.assoc)
qed (simp_all add: setBaseURI_def freezeMetadata_def setApprovalForAll_def transferFrom_def
          split: option.splits)

lemma frozen_exec_run:
  "(metadataFrozen s \<longrightarrow> (\<forall>s'. exec c s = Inr s' \<longrightarrow>
      metadataFrozen s' \<and> baseTokenURI s' = baseTokenURI s))"
  "(metadataFrozen s \<longrightarrow>
      metadataFrozen (run cs s) \<and> baseTokenURI (run cs s) = baseTokenURI s)"
proof (induction c s and cs s rule: exec_run.induct)
  case (1 sender inner accepts s)
  show ?case
  proof (intro allI impI)
    fix s' assume fr: "metadataFrozen s" and "exec (Mint sender inner accepts) s = Inr s'"
    then obtain tokenId where m: "mint sender (run inner) accepts s = Inr (tokenId, s')"
      by (auto split: sum.splits)
    let ?t = "s\<lparr>nextTokenId := nextTokenId s + 1,
                 owners := (owners s)(nextTokenId s \<mapsto> sender),
                 events := events s @ [Transfer 0 sender (nextTokenId s)]\<rparr>"
    from m have s': "s' = (run inner ?t)\<lparr>events := events (run inner ?t) @ [MetadataUpdate tokenId]\<rparr>"
      by (auto simp: mint_def safeMint_def Let_def split: if_splits sum.splits)
    from fr have "metadataFrozen ?t" by simp
    with 1 have "metadataFrozen (run inner ?t) \<and> baseTokenURI (run inner ?t) = baseTokenURI ?t"
      by blast
    then show "metadataFrozen s' \<and> baseTokenURI s' = baseTokenURI s"
      by (simp add: s')
  qed
next
  case (7 c cs s)
  then show ?case by (cases "exec c s") auto
qed (auto simp: setBaseURI_def freezeMetadata_def setApprovalForAll_def transferFrom_def
          split: option.splits if_splits)

lemma owner_exec_run:
  "(\<forall>s'. exec c s = Inr s' \<longrightarrow> owner s' = owner s)"
  "owner (run cs s) = owner s"
proof (induction c s and cs s rule: exec_run.induct)
  case (1 sender inner accepts s)
  show ?case
  proof (intro allI impI)
    fix s' assume "exec (Mint sender inner accepts) s = Inr s'"
    then obtain tokenId where m: "mint sender (run inner) accepts s = Inr (tokenId, s')"
      by (auto split: sum.splits)
    let ?t = "s\<lparr>nextTokenId := nextTokenId s + 1,
                 owners := (owners s)(nextTokenId s \<mapsto> sender),
                 events := events s @ [Transfer 0 sender (nextTokenId s)]\<rparr>"
    from m have s': "s' = (run inner ?t)\<lparr>events := events (run inner ?t) @ [MetadataUpdate tokenId]\<rparr>"
      by (auto simp: mint_def safeMint_def Let_def split: if_splits sum.splits)
    from 1 have "owner (run inner ?t) = owner ?t" by blast
    then show "owner s' = owner s" by (simp add: s')
  qed
next
  case (7 c cs s)
  then show ?case by (cases "exec c s") auto
qed (auto simp: setBaseURI_def freezeMetadata_def setApprovalForAll_def transferFrom_def
          split: option.splits if_splits)

subsection \<open>Token IDs and the total supply\<close>

text \<open>
  C1. Whatever calls have been made on a deployed collection, by whatever callers and
  nested in whatever way, the token IDs of the successful mints are, in call order,
  exactly 1, 2, 3 and so on: strictly increasing from 1, without gaps or repeats. The
  total supply is the number of successful mints, and a further successful mint returns
  that number plus one and appends it to the IDs.
\<close>

theorem mint_ids_sequential:
  "let s = run cs (constructor name symbol initialOwner); ids = minted (events s) in
     map unat ids = [1..<Suc (length ids)] \<and>
     totalSupply s = Inr (of_nat (length ids)) \<and>
     (\<forall>sender inner accepts tokenId s'.
        mint sender (run inner) accepts s = Inr (tokenId, s') \<longrightarrow>
        unat tokenId = Suc (length ids) \<and>
        take (Suc (length ids)) (minted (events s')) = ids @ [tokenId])"
proof -
  define s where "s = run cs (constructor name symbol initialOwner)"
  define ids where "ids = minted (events s)"
  have wf: "wf_state s" unfolding s_def by (rule wf_reachable)
  have n: "unat (nextTokenId s) = Suc (length ids)"
    unfolding ids_def using wf by (rule wf_count)
  have a: "map unat ids = [1..<Suc (length ids)]"
    using wf n by (simp add: wf_state_def ids_def)
  have b: "totalSupply s = Inr (of_nat (length ids))"
    unfolding ids_def using wf by (rule wf_totalSupply)
  have c: "unat tokenId = Suc (length ids) \<and>
           take (Suc (length ids)) (minted (events s')) = ids @ [tokenId]"
    if m: "mint sender (run inner) accepts s = Inr (tokenId, s')"
    for sender inner accepts tokenId s'
  proof -
    from m obtain t where tok: "tokenId = nextTokenId s"
      and t: "events t = events s @ [Transfer 0 sender tokenId]"
      and s': "s' = (run inner t)\<lparr>events := events (run inner t) @ [MetadataUpdate tokenId]\<rparr>"
      by (rule mint_Inr)
    obtain es where "events (run inner t) = events t @ es"
      using events_grow(2) by blast
    with t s' have "minted (events s') = (ids @ [tokenId]) @ minted (es @ [MetadataUpdate tokenId])"
      by (simp add: minted_append ids_def)
    then have "take (Suc (length ids)) (minted (events s')) = ids @ [tokenId]" by simp
    with tok n show ?thesis by simp
  qed
  from a b c show ?thesis unfolding Let_def s_def[symmetric] ids_def[symmetric] by blast
qed

text \<open>
  Three mints succeed (one of them from within the receiver hook of another), one is
  refused by its receiver; the next mint returns 4.
\<close>

theorem mint_ids_sequential_witness:
  "\<exists>s'. mint 9 (run []) True
           (run [Mint 5 [] True, Mint 6 [Mint 7 [] True, SetBaseURI 6 ''x''] True, Mint 8 [] False]
              (constructor ''Test NFT'' ''TNFT'' 5)) = Inr (4, s') \<and>
        take 4 (minted (events s')) = [1, 2, 3, 4]"
proof -
  let ?cs = "[Mint 5 [] True, Mint 6 [Mint 7 [] True, SetBaseURI 6 ''x''] True, Mint 8 [] False]"
  let ?s = "run ?cs (constructor ''Test NFT'' ''TNFT'' 5)"
  have ids: "minted (events ?s) = [1, 2, 3]"
    by (simp add: mint_def safeMint_def constructor_def setBaseURI_def onlyOwner_def Let_def)
  obtain s' where h: "mint 9 (run []) True ?s = Inr (4, s')"
    by (simp add: mint_def safeMint_def constructor_def setBaseURI_def onlyOwner_def Let_def)
  have "\<forall>sender inner accepts tokenId s'.
          mint sender (run inner) accepts ?s = Inr (tokenId, s') \<longrightarrow>
          unat tokenId = Suc (length (minted (events ?s))) \<and>
          take (Suc (length (minted (events ?s)))) (minted (events s'))
            = minted (events ?s) @ [tokenId]"
    using mint_ids_sequential [of ?cs "''Test NFT''" "''TNFT''" 5]
    unfolding Let_def by (elim conjE)
  with h have "take (Suc (length (minted (events ?s)))) (minted (events s'))
                 = minted (events ?s) @ [4]"
    by blast
  then have "take (Suc (length [1, 2, 3 :: uint256])) (minted (events s')) = [1, 2, 3] @ [4]"
    by (simp only: ids)
  then have "take 4 (minted (events s')) = [1, 2, 3, 4]" by (simp add: eval_nat_numeral)
  with h show ?thesis by blast
qed

subsection \<open>The base URI after a freeze\<close>

text \<open>
  After a freeze, a call of \<open>setBaseURI\<close> by an account other than the owner is rejected
  by the owner check, which comes first: it does not signal that the metadata is frozen.
\<close>

theorem setBaseURI_after_freeze_counterexample:
  "freezeMetadata 1 (constructor ''Test NFT'' ''TNFT'' 1)
     = Inr ((constructor ''Test NFT'' ''TNFT'' 1)\<lparr>metadataFrozen := True\<rparr>) \<and>
   setBaseURI 2 ''https://y/'' ((constructor ''Test NFT'' ''TNFT'' 1)\<lparr>metadataFrozen := True\<rparr>)
     = Inl (OwnableUnauthorizedAccount 2) \<and>
   setBaseURI 2 ''https://y/'' ((constructor ''Test NFT'' ''TNFT'' 1)\<lparr>metadataFrozen := True\<rparr>)
     \<noteq> Inl MetadataIsFrozen"
  by (simp add: freezeMetadata_def setBaseURI_def onlyOwner_def constructor_def)

text \<open>
  C2, amended. After \<open>freezeMetadata\<close> has succeeded, every later call of \<open>setBaseURI\<close>
  fails, whatever calls have been made in between: a call by the owner signals that the
  metadata is frozen, a call by any other account signals that the account is not
  authorised. The base URI stays the one it was at the freeze, also after any further
  sequence of calls that contains such attempts.
\<close>

theorem setBaseURI_after_freeze:
  assumes "freezeMetadata caller s = Inr s1"
  shows "setBaseURI sender uri (run cs s1) =
           Inl (if sender = owner (run cs s1) then MetadataIsFrozen
                else OwnableUnauthorizedAccount sender) \<and>
         owner (run cs s1) = owner s \<and>
         baseTokenURI (run cs s1) = baseTokenURI s \<and>
         baseTokenURI (run (cs @ SetBaseURI sender uri # cs') s1) = baseTokenURI s"
proof -
  from assms have s1: "s1 = s\<lparr>metadataFrozen := True\<rparr>"
    by (auto simp: freezeMetadata_def split: option.splits)
  then have fr: "metadataFrozen s1" and b1: "baseTokenURI s1 = baseTokenURI s"
    and o1: "owner s1 = owner s"
    by simp_all
  have o: "owner (run cs s1) = owner s"
    using o1 owner_exec_run(2) [of cs s1] by simp
  have "metadataFrozen (run cs s1)"
    using fr frozen_exec_run(2) [of s1 cs] by simp
  then have a: "setBaseURI sender uri (run cs s1) =
      Inl (if sender = owner (run cs s1) then MetadataIsFrozen
           else OwnableUnauthorizedAccount sender)"
    by (simp add: setBaseURI_def onlyOwner_def)
  have b: "baseTokenURI (run cs' s1) = baseTokenURI s" for cs'
    using fr b1 frozen_exec_run(2) [of s1 cs'] by simp
  from a o b show ?thesis by blast
qed

text \<open>
  The owner freezes a fresh collection, somebody mints, and then the owner and another
  account both try to set the base URI.
\<close>

theorem setBaseURI_after_freeze_witness:
  "freezeMetadata 1 (constructor ''Test NFT'' ''TNFT'' 1)
     = Inr ((constructor ''Test NFT'' ''TNFT'' 1)\<lparr>metadataFrozen := True\<rparr>) \<and>
   setBaseURI 1 ''https://y/''
     (run [Mint 2 [] True] ((constructor ''Test NFT'' ''TNFT'' 1)\<lparr>metadataFrozen := True\<rparr>))
     = Inl MetadataIsFrozen \<and>
   setBaseURI 2 ''https://y/''
     (run [Mint 2 [] True] ((constructor ''Test NFT'' ''TNFT'' 1)\<lparr>metadataFrozen := True\<rparr>))
     = Inl (OwnableUnauthorizedAccount 2)"
proof -
  let ?c = "constructor ''Test NFT'' ''TNFT'' 1"
  let ?s2 = "run [Mint 2 [] True] (?c\<lparr>metadataFrozen := True\<rparr>)"
  have h: "freezeMetadata 1 ?c = Inr (?c\<lparr>metadataFrozen := True\<rparr>)"
    by (simp add: freezeMetadata_def onlyOwner_def constructor_def)
  have o: "owner ?c = 1" by (simp add: constructor_def)
  note t1 = setBaseURI_after_freeze [OF h, of 1 "''https://y/''" "[Mint 2 [] True]"]
  note t2 = setBaseURI_after_freeze [OF h, of 2 "''https://y/''" "[Mint 2 [] True]"]
  from t1 o have o2: "owner ?s2 = 1" by (simp only:)
  from t1 have "setBaseURI 1 ''https://y/'' ?s2 = Inl MetadataIsFrozen"
    by (simp only: o2) simp
  moreover from t2 have "setBaseURI 2 ''https://y/'' ?s2 = Inl (OwnableUnauthorizedAccount 2)"
    by (simp only: o2) simp
  ultimately show ?thesis using h by (intro conjI)
qed

subsection \<open>The frozen flag\<close>

text \<open>
  C4. The frozen flag is a one-way latch: once it is set, it stays set after any call
  and after any sequence of calls, and a further \<open>freezeMetadata\<close> by the owner succeeds
  and leaves the whole storage as it is.
\<close>

theorem frozen_is_latch:
  "(metadataFrozen s \<longrightarrow> metadataFrozen (run cs s)) \<and>
   (\<forall>s'. metadataFrozen s \<longrightarrow> exec c s = Inr s' \<longrightarrow> metadataFrozen s') \<and>
   (metadataFrozen s \<longrightarrow> freezeMetadata (owner s) s = Inr s) \<and>
   isMetadataFrozen s = metadataFrozen s"
proof -
  have "freezeMetadata (owner s) s = Inr s" if "metadataFrozen s"
    using that by (simp add: freezeMetadata_def onlyOwner_def)
  then show ?thesis
    using frozen_exec_run(1) [of s c] frozen_exec_run(2) [of s cs]
    by (simp add: isMetadataFrozen_def)
qed

theorem frozen_is_latch_witness:
  "metadataFrozen ((constructor ''Test NFT'' ''TNFT'' 1)\<lparr>metadataFrozen := True\<rparr>) \<and>
   metadataFrozen (run [SetBaseURI 1 ''x'', Mint 3 [] True, FreezeMetadata 1, TransferFrom 3 3 4 1]
                     ((constructor ''Test NFT'' ''TNFT'' 1)\<lparr>metadataFrozen := True\<rparr>)) \<and>
   freezeMetadata 1 ((constructor ''Test NFT'' ''TNFT'' 1)\<lparr>metadataFrozen := True\<rparr>)
     = Inr ((constructor ''Test NFT'' ''TNFT'' 1)\<lparr>metadataFrozen := True\<rparr>)"
proof -
  let ?s = "(constructor ''Test NFT'' ''TNFT'' 1)\<lparr>metadataFrozen := True\<rparr>"
  have f: "metadataFrozen ?s" by simp
  have o: "owner ?s = 1" by (simp add: constructor_def)
  from frozen_is_latch [of ?s "[SetBaseURI 1 ''x'', Mint 3 [] True, FreezeMetadata 1, TransferFrom 3 3 4 1]"] f o
  show ?thesis by simp
qed

subsection \<open>Token URIs\<close>

lemma toDecimal_not_Nil: "toDecimal n \<noteq> []"
  by (subst toDecimal.simps) simp

lemma digit_cases:
  "d < (10::nat) \<Longrightarrow>
     d = 0 \<or> d = 1 \<or> d = 2 \<or> d = 3 \<or> d = 4 \<or> d = 5 \<or> d = 6 \<or> d = 7 \<or> d = 8 \<or> d = 9"
  by arith

lemma digit_in: "d < 10 \<Longrightarrow> ''0123456789'' ! d \<in> set ''0123456789''"
  by (rule nth_mem) simp

lemma digitValue_digit: "d < 10 \<Longrightarrow> digitValue (''0123456789'' ! d) = d"
  by (drule digit_cases) (auto simp: digitValue_def)

lemma digit_zero: "d < 10 \<Longrightarrow> ''0123456789'' ! d = CHR ''0'' \<Longrightarrow> d = 0"
  by (drule digit_cases) auto

lemma set_toDecimal: "set (toDecimal n) \<subseteq> set ''0123456789''"
proof (induction n rule: toDecimal.induct)
  case (1 n)
  show ?case
  proof (cases "n < 10")
    case True
    then show ?thesis using digit_in [of n] by (subst toDecimal.simps) simp
  next
    case False
    then show ?thesis using 1 digit_in [of "n mod 10"] by (subst toDecimal.simps) simp
  qed
qed

lemma fromDecimal_snoc: "fromDecimal (ds @ [c]) = 10 * fromDecimal ds + digitValue c"
  by (simp add: fromDecimal_def)

lemma fromDecimal_toDecimal: "fromDecimal (toDecimal n) = n"
proof (induction n rule: toDecimal.induct)
  case (1 n)
  show ?case
  proof (cases "n < 10")
    case True
    then show ?thesis
      by (subst toDecimal.simps) (simp add: fromDecimal_def digitValue_digit)
  next
    case False
    then have "fromDecimal (toDecimal n) = 10 * fromDecimal (toDecimal (n div 10)) + n mod 10"
      by (subst toDecimal.simps) (simp add: fromDecimal_snoc digitValue_digit)
    with False 1 show ?thesis by simp
  qed
qed

lemma hd_toDecimal: "n \<noteq> 0 \<Longrightarrow> hd (toDecimal n) \<noteq> CHR ''0''"
proof (induction n rule: toDecimal.induct)
  case (1 n)
  show ?case
  proof (cases "n < 10")
    case True
    with 1(2) show ?thesis using digit_zero [of n] by (subst toDecimal.simps) auto
  next
    case False
    then have "n div 10 \<noteq> 0" by simp
    with False 1 have "hd (toDecimal (n div 10)) \<noteq> CHR ''0''" by blast
    with False show ?thesis
      by (subst toDecimal.simps) (simp add: toDecimal_not_Nil)
  qed
qed

text \<open>
  A collection is deployed and a token is minted before any base URI is set, as the
  deployment script does. The token is minted, the stored base URI followed by the
  decimal token ID is \<open>1\<close>, and \<open>tokenURI\<close> answers the empty string.
\<close>

theorem tokenURI_counterexample:
  "tokenURI 1 (run [Mint 8 [] True] (constructor ''Nexus Test Collection'' ''NNFT'' 8)) = Inr [] \<and>
   minted (events (run [Mint 8 [] True] (constructor ''Nexus Test Collection'' ''NNFT'' 8))) = [1] \<and>
   baseTokenURI (run [Mint 8 [] True] (constructor ''Nexus Test Collection'' ''NNFT'' 8))
     @ toString 1 = ''1''"
  by (simp add: tokenURI_def baseURI_def toString_def toDecimal.simps mint_def safeMint_def
        constructor_def Let_def)

text \<open>
  C3, amended. For every token ID and every reachable storage: \<open>tokenURI\<close> fails with the
  nonexistent-token error if the token was never minted; if the token is minted, it
  returns the stored base URI followed by the decimal rendering of the token ID when the
  stored base URI is not empty, and the empty string when it is empty. The decimal
  rendering consists of decimal digits, denotes the token ID, and has no leading zero
  (no padding).
\<close>

theorem tokenURI_spec:
  "let s = run cs (constructor name symbol initialOwner) in
     (tokenId \<notin> set (minted (events s)) \<longrightarrow>
        tokenURI tokenId s = Inl (ERC721NonexistentToken tokenId)) \<and>
     (tokenId \<in> set (minted (events s)) \<and> baseTokenURI s \<noteq> [] \<longrightarrow>
        tokenURI tokenId s = Inr (baseTokenURI s @ toString tokenId)) \<and>
     (tokenId \<in> set (minted (events s)) \<and> baseTokenURI s = [] \<longrightarrow>
        tokenURI tokenId s = Inr []) \<and>
     fromDecimal (toString tokenId) = unat tokenId \<and>
     set (toString tokenId) \<subseteq> set ''0123456789'' \<and>
     (tokenId \<noteq> 0 \<longrightarrow> hd (toString tokenId) \<noteq> CHR ''0'')"
proof -
  define s where "s = run cs (constructor name symbol initialOwner)"
  have "wf_state s" unfolding s_def by (rule wf_reachable)
  then have d: "dom (owners s) = set (minted (events s))" by (simp add: wf_state_def)
  have a: "tokenURI tokenId s = Inl (ERC721NonexistentToken tokenId)"
    if "tokenId \<notin> set (minted (events s))"
  proof -
    from that d have "owners s tokenId = None" by blast
    then show ?thesis by (simp add: tokenURI_def)
  qed
  have b: "tokenURI tokenId s = Inr (baseTokenURI s @ toString tokenId)"
    if "tokenId \<in> set (minted (events s))" and "baseTokenURI s \<noteq> []"
  proof -
    from that d obtain holder where "owners s tokenId = Some holder" by blast
    with that(2) show ?thesis by (simp add: tokenURI_def baseURI_def)
  qed
  have b': "tokenURI tokenId s = Inr []"
    if "tokenId \<in> set (minted (events s))" and "baseTokenURI s = []"
  proof -
    from that d obtain holder where "owners s tokenId = Some holder" by blast
    with that(2) show ?thesis by (simp add: tokenURI_def baseURI_def)
  qed
  have c: "hd (toString tokenId) \<noteq> CHR ''0''" if "tokenId \<noteq> 0"
  proof -
    from that have "unat tokenId \<noteq> 0" by (simp add: unat_eq_0)
    then show ?thesis unfolding toString_def by (rule hd_toDecimal)
  qed
  have e: "set (toString tokenId) \<subseteq> set ''0123456789''"
    unfolding toString_def by (rule set_toDecimal)
  have f: "fromDecimal (toString tokenId) = unat tokenId"
    unfolding toString_def by (rule fromDecimal_toDecimal)
  from a b b' c e f show ?thesis
    unfolding Let_def s_def [symmetric] by blast
qed

text \<open>
  With a base URI set before the mint, token 1 has the URI \<open>https://x/1\<close> and token 2
  does not exist; without a base URI, token 1 has the empty URI.
\<close>

theorem tokenURI_spec_witness:
  "tokenURI 1 (run [SetBaseURI 7 ''https://x/'', Mint 8 [] True] (constructor ''Test NFT'' ''TNFT'' 7))
     = Inr ''https://x/1'' \<and>
   tokenURI 2 (run [SetBaseURI 7 ''https://x/'', Mint 8 [] True] (constructor ''Test NFT'' ''TNFT'' 7))
     = Inl (ERC721NonexistentToken 2) \<and>
   tokenURI 1 (run [Mint 8 [] True] (constructor ''Test NFT'' ''TNFT'' 7)) = Inr []"
proof -
  let ?cs = "[SetBaseURI 7 ''https://x/'', Mint 8 [] True]"
  let ?s = "run ?cs (constructor ''Test NFT'' ''TNFT'' 7)"
  let ?t = "run [Mint 8 [] True] (constructor ''Test NFT'' ''TNFT'' 7)"
  have ids: "minted (events ?s) = [1]"
    by (simp add: mint_def safeMint_def constructor_def setBaseURI_def onlyOwner_def Let_def)
  have base: "baseTokenURI ?s = ''https://x/''"
    by (simp add: mint_def safeMint_def constructor_def setBaseURI_def onlyOwner_def Let_def)
  have idt: "minted (events ?t) = [1]"
    by (simp add: mint_def safeMint_def constructor_def Let_def)
  have baset: "baseTokenURI ?t = []"
    by (simp add: mint_def safeMint_def constructor_def Let_def)
  have one: "toString 1 = ''1''"
    by (simp add: toString_def toDecimal.simps)
  have "tokenURI 1 ?s = Inr (baseTokenURI ?s @ toString 1)"
    using tokenURI_spec [of ?cs "''Test NFT''" "''TNFT''" 7 1]
    unfolding Let_def ids base by simp
  then have x: "tokenURI 1 ?s = Inr ''https://x/1''"
    by (simp only: base one) simp
  have y: "tokenURI 2 ?s = Inl (ERC721NonexistentToken 2)"
    using tokenURI_spec [of ?cs "''Test NFT''" "''TNFT''" 7 2]
    unfolding Let_def ids by simp
  have z: "tokenURI 1 ?t = Inr []"
    using tokenURI_spec [of "[Mint 8 [] True]" "''Test NFT''" "''TNFT''" 7 1]
    unfolding Let_def idt baset by simp
  from x y z show ?thesis by (intro conjI)
qed

section \<open>Properties of the image endpoint\<close>

lemma ToInt32_cong: "x mod 2 ^ 32 = y mod 2 ^ 32 \<Longrightarrow> ToInt32 x = ToInt32 y"
proof -
  assume "x mod 2 ^ 32 = y mod 2 ^ 32"
  then have "(x + 2 ^ 31) mod 2 ^ 32 = (y + 2 ^ 31) mod 2 ^ 32"
    by (rule mod_add_cong) simp
  then show ?thesis by (simp only: ToInt32_def)
qed

lemma ToInt32_mod: "ToInt32 x mod 2 ^ 32 = x mod 2 ^ 32"
proof -
  have "((x + 2 ^ 31) mod 2 ^ 32 - 2 ^ 31) mod 2 ^ 32 = (x + 2 ^ 31 - 2 ^ 31) mod (2 ^ 32 :: int)"
    by (rule mod_diff_left_eq)
  then show ?thesis by (simp add: ToInt32_def)
qed

lemma ToInt32_range: "- (2 ^ 31) \<le> ToInt32 x \<and> ToInt32 x < 2 ^ 31"
proof -
  have "0 \<le> (x + 2 ^ 31) mod 2 ^ 32" and "(x + 2 ^ 31) mod 2 ^ 32 < (2 ^ 32 :: int)"
    by simp_all
  then show ?thesis by (simp add: ToInt32_def)
qed

lemma wrap_step:
  "((a * p + k) mod m - k - a + c + k) mod m = (a * (p - 1) + c + k) mod (m :: int)"
proof -
  have "((a * p + k) mod m - k - a + c + k) mod m = ((a * p + k) mod m + (c - a)) mod m"
    by (simp add: algebra_simps)
  also have "\<dots> = (a * p + k + (c - a)) mod m"
    by (rule mod_add_left_eq)
  also have "a * p + k + (c - a) = a * (p - 1) + c + k"
    by (simp add: algebra_simps)
  finally show ?thesis .
qed

lemma hash_step: "ToInt32 (ToInt32 (acc * 2 ^ 5) - acc + c) = ToInt32 (acc * 31 + c)"
  using wrap_step [of acc "2 ^ 5" "2 ^ 31" "2 ^ 32" c] by (simp add: ToInt32_def)

lemma hash_spec: "hash tokenId = spec_hash tokenId"
  by (simp only: hash_def spec_hash_def hash_step)

lemma foldl_ToInt32_range:
  "- (2 ^ 31) \<le> a \<and> a < 2 ^ 31 \<Longrightarrow>
   - (2 ^ 31) \<le> foldl (\<lambda>h c. ToInt32 (f h c)) a cs \<and> foldl (\<lambda>h c. ToInt32 (f h c)) a cs < 2 ^ 31"
proof (induction cs arbitrary: a)
  case Nil
  then show ?case by simp
next
  case (Cons c cs)
  from Cons.IH [OF ToInt32_range [of "f a c"]] show ?case by simp
qed

lemma hash_range: "- (2 ^ 31) \<le> hash tokenId \<and> hash tokenId < 2 ^ 31"
  unfolding hash_def by (rule foldl_ToInt32_range) simp

lemma hue_spec: "hue tokenId = spec_hue tokenId"
  by (simp add: hue_def spec_hue_def js_rem_def hash_spec)

lemma numCircles_spec: "numCircles tokenId = spec_numCircles tokenId"
  by (simp add: numCircles_def spec_numCircles_def js_rem_def hash_spec)

lemma foldl_append_concat: "foldl (\<lambda>acc i. acc @ f i) a xs = a @ concat (map f xs)"
  by (induction xs arbitrary: a) simp_all

lemma generatePattern_circles:
  "generatePattern coord tokenId =
     concat (map (\<lambda>i. circle (fst (coord i (nat (numCircles tokenId))))
                          (snd (coord i (nat (numCircles tokenId))))
                          (numberToString (radius tokenId)))
                 [0..<nat (numCircles tokenId)])"
  by (simp add: generatePattern_def Let_def foldl_append_concat)

lemma radius_nonneg: "0 \<le> hash tokenId \<Longrightarrow> radius tokenId = spec_radius tokenId"
  by (simp add: radius_def spec_radius_def js_rem_def hash_spec)

lemma js_rem_30: "- 29 \<le> js_rem h 30 \<and> js_rem h 30 \<le> 29"
proof -
  have "0 \<le> (- h) mod 30 \<and> (- h) mod 30 \<le> 29" by presburger
  moreover have "0 \<le> h mod 30 \<and> h mod 30 \<le> 29" by presburger
  ultimately show ?thesis unfolding js_rem_def by (cases "h < 0") auto
qed

lemma radius_range: "21 \<le> radius tokenId \<and> radius tokenId \<le> 79"
  using js_rem_30 [of "hash tokenId"] by (simp add: radius_def)

lemma hash_1700000: "hash (js ''1700000'') = - 2136549942"
  by (simp add: hash_def js_def isHighSurrogate_def isLowSurrogate_def ToInt32_def)

text \<open>
  The token ID \<open>1700000\<close> hashes to a negative number. The remainder the handler
  computes is then negative and the radius is below the base radius: 38, where the base
  radius plus \<open>hash mod 30\<close> is 68.
\<close>

theorem radius_counterexample:
  "radius (js ''1700000'') = 38 \<and> spec_radius (js ''1700000'') = 68"
  by (simp add: radius_def spec_radius_def hash_spec [symmetric] hash_1700000 js_rem_def)

lemma hash_42: "hash (js ''42'') = 1662"
  by (simp add: hash_def js_def isHighSurrogate_def isLowSurrogate_def ToInt32_def)

text \<open>
  C5, amended. For every token ID string the image is a function of the string: the hash
  is the fold of \<open>hash * 31 + charCode\<close> with signed 32-bit wrap-around, the hue is
  \<open>abs(hash) mod 360\<close> with fixed saturation and lightness, the pattern has
  \<open>3 + (abs(hash) mod 5)\<close> circles, and the radius is the base radius 50 plus the
  remainder of the hash by 30 taken with the sign of the hash: \<open>hash mod 30\<close> when the hash
  is not negative, \<open>- ((- hash) mod 30)\<close> when it is, so that the radius lies between 21
  and 79. The same token ID yields the same response.
\<close>

theorem image_synthesizer:
  "hash tokenId = spec_hash tokenId \<and>
   - (2 ^ 31) \<le> hash tokenId \<and> hash tokenId < 2 ^ 31 \<and>
   hue tokenId = spec_hue tokenId \<and>
   generateColor tokenId = js ''hsl('' @ numberToString (spec_hue tokenId) @ js '', 70%, 60%)'' \<and>
   numCircles tokenId = spec_numCircles tokenId \<and>
   generatePattern coord tokenId =
     concat (map (\<lambda>i. circle (fst (coord i (nat (spec_numCircles tokenId))))
                          (snd (coord i (nat (spec_numCircles tokenId))))
                          (numberToString (radius tokenId)))
                 [0..<nat (spec_numCircles tokenId)]) \<and>
   radius tokenId =
     50 + (if hash tokenId < 0 then - ((- hash tokenId) mod 30) else hash tokenId mod 30) \<and>
   21 \<le> radius tokenId \<and> radius tokenId \<le> 79 \<and>
   (0 \<le> hash tokenId \<longrightarrow> radius tokenId = spec_radius tokenId) \<and>
   (tokenId' = tokenId \<longrightarrow> image_GET coord tokenId' = image_GET coord tokenId)"
proof -
  have "generateColor tokenId = js ''hsl('' @ numberToString (spec_hue tokenId) @ js '', 70%, 60%)''"
    by (simp only: generateColor_def hue_spec)
  moreover have "radius tokenId =
     50 + (if hash tokenId < 0 then - ((- hash tokenId) mod 30) else hash tokenId mod 30)"
    by (simp add: radius_def js_rem_def)
  moreover note hash_spec [of tokenId] hash_range [of tokenId] hue_spec [of tokenId]
    numCircles_spec [of tokenId] radius_nonneg [of tokenId] radius_range [of tokenId]
    generatePattern_circles [of coord tokenId, unfolded numCircles_spec]
  ultimately show ?thesis by blast
qed

text \<open>The token ID \<open>42\<close>: hash 1662, hue 222, five circles of radius 62.\<close>

theorem image_synthesizer_witness:
  "0 \<le> hash (js ''42'') \<and> radius (js ''42'') = 62 \<and> spec_radius (js ''42'') = 62 \<and>
   spec_hue (js ''42'') = 222 \<and> numCircles (js ''42'') = 5"
proof -
  have h: "0 \<le> hash (js ''42'')" by (simp only: hash_42)
  have r: "radius (js ''42'') = 62" by (simp add: radius_def js_rem_def hash_42)
  have "radius (js ''42'') = spec_radius (js ''42'')"
    and "hue (js ''42'') = spec_hue (js ''42'')"
    using image_synthesizer [of "js ''42''"] h by blast+
  then show ?thesis using h r
    by (simp add: hue_def numCircles_def js_rem_def hash_42)
qed

section \<open>Properties of the metadata endpoints\<close>

lemma findUploadedImage_query_eq: "findUploadedImage_query e a = findUploadedImage e a"
  by (simp add: findUploadedImage_query_def findUploadedImage_def Let_def
           split: option.splits)

lemma js_not_Nil: "s \<noteq> [] \<Longrightarrow> js s \<noteq> []"
  by (simp add: js_def)

lemma validateMetadata_metadata_of:
  "validateMetadata (metadata_of apiUrl websiteUrl now uploadedImage tokenId)"
  by (cases uploadedImage)
     (simp_all add: validateMetadata_def metadata_of_def or_else_def js_def)

lemma metadata_GET_ok:
  "\<not> falsy contractAddress \<Longrightarrow>
   metadata_GET e contractAddress tokenId =
     \<lparr> status = 200,
       headers = [(''Content-Type'', ''application/json''),
                  (''Cache-Control'', ''no-cache, no-store, must-revalidate'')],
       body = JsonMetadata (metadata_of (API_URL e) (BASE_URL e) (Date_now e)
                 (findUploadedImage e (the contractAddress)) tokenId) \<rparr>"
  by (simp add: metadata_GET_def Let_def validateMetadata_metadata_of)

lemma metadata_query_GET_ok:
  "\<not> falsy contractAddress \<Longrightarrow> \<not> falsy tokenId \<Longrightarrow>
   metadata_query_GET e contractAddress tokenId =
     \<lparr> status = 200,
       headers = [(''Content-Type'', ''application/json''),
                  (''Cache-Control'', ''no-cache, no-store, must-revalidate'')],
       body = JsonMetadata (metadata_of (API_URL e) (BASE_URL e) (Date_now e)
                 (findUploadedImage e (the contractAddress)) (the tokenId)) \<rparr>"
  by (simp add: metadata_query_GET_def Let_def findUploadedImage_query_eq API_URL_def BASE_URL_def)

text \<open>
  C9. For every token ID, every request and every outcome of the asset lookup: the
  document the handler builds is \<open>metadata_of\<close> applied to the configured URLs, the clock,
  the outcome of the lookup and the token ID; every such document passes
  \<open>validateMetadata\<close>; with a contract address the handler answers 200 with exactly that
  document, and whatever document a metadata handler serves passes the check. The
  handler never answers 500 and never reports an invalid metadata structure.
\<close>

theorem metadata_always_valid:
  "validateMetadata (metadata_of apiUrl websiteUrl now uploadedImage tokenId) \<and>
   (\<not> falsy contractAddress \<longrightarrow>
      metadata_GET e contractAddress tokenId =
        \<lparr> status = 200,
          headers = [(''Content-Type'', ''application/json''),
                     (''Cache-Control'', ''no-cache, no-store, must-revalidate'')],
          body = JsonMetadata (metadata_of (API_URL e) (BASE_URL e) (Date_now e)
                    (findUploadedImage e (the contractAddress)) tokenId) \<rparr>) \<and>
   (falsy contractAddress \<longrightarrow> status (metadata_GET e contractAddress tokenId) = 400) \<and>
   (\<forall>md. body (metadata_GET e contractAddress tokenId) = JsonMetadata md \<longrightarrow>
      validateMetadata md \<and> status (metadata_GET e contractAddress tokenId) = 200) \<and>
   (\<forall>md. body (metadata_query_GET e contractAddress queryTokenId) = JsonMetadata md \<longrightarrow>
      validateMetadata md) \<and>
   status (metadata_GET e contractAddress tokenId) \<noteq> 500 \<and>
   body (metadata_GET e contractAddress tokenId) \<noteq> JsonError (js ''Invalid metadata structure'')"
proof -
  have v: "validateMetadata (metadata_of a w n u t)" for a w n u t
    by (rule validateMetadata_metadata_of)
  have ok: "metadata_GET e contractAddress tokenId =
        \<lparr> status = 200,
          headers = [(''Content-Type'', ''application/json''),
                     (''Cache-Control'', ''no-cache, no-store, must-revalidate'')],
          body = JsonMetadata (metadata_of (API_URL e) (BASE_URL e) (Date_now e)
                    (findUploadedImage e (the contractAddress)) tokenId) \<rparr>"
    if "\<not> falsy contractAddress"
    using that by (rule metadata_GET_ok)
  have bad: "metadata_GET e contractAddress tokenId =
        \<lparr> status = 400, headers = [], body = JsonError (js ''Contract address is required'') \<rparr>"
    if "falsy contractAddress"
    using that by (simp add: metadata_GET_def)
  have served: "validateMetadata md \<and> status (metadata_GET e contractAddress tokenId) = 200"
    if "body (metadata_GET e contractAddress tokenId) = JsonMetadata md" for md
  proof (cases "falsy contractAddress")
    case True
    with that show ?thesis by (simp add: bad)
  next
    case False
    with that show ?thesis using v by (auto simp: ok)
  qed
  have served_query: "validateMetadata md"
    if "body (metadata_query_GET e contractAddress queryTokenId) = JsonMetadata md" for md
  proof (cases "falsy contractAddress")
    case True
    with that show ?thesis by (simp add: metadata_query_GET_def)
  next
    case c: False
    show ?thesis
    proof (cases "falsy queryTokenId")
      case True
      with c that show ?thesis by (simp add: metadata_query_GET_def)
    next
      case False
      with c that show ?thesis using v by (auto simp: metadata_query_GET_ok)
    qed
  qed
  have s: "status (metadata_GET e contractAddress tokenId) \<noteq> 500"
    by (cases "falsy contractAddress") (simp_all add: ok bad)
  have b: "body (metadata_GET e contractAddress tokenId)
             \<noteq> JsonError (js ''Invalid metadata structure'')"
    by (cases "falsy contractAddress") (simp_all add: ok bad, simp add: js_def)
  from v ok bad served served_query s b show ?thesis by (intro conjI allI impI) simp_all
qed

text \<open>
  A request whose listing is rejected: the handler answers 200 with the document built
  for a missing upload, and that document is valid.
\<close>

theorem metadata_always_valid_witness:
  "status (metadata_GET example_env (Some (js ''0xCD'')) (js ''7'')) = 200 \<and>
   body (metadata_GET example_env (Some (js ''0xCD'')) (js ''7'')) =
     JsonMetadata (metadata_of (js ''https://api.example'') (js ''http://localhost:3000'')
       1700000000123 None (js ''7'')) \<and>
   validateMetadata (metadata_of (js ''https://api.example'') (js ''http://localhost:3000'')
       1700000000123 None (js ''7''))"
proof -
  let ?md = "metadata_of (js ''https://api.example'') (js ''http://localhost:3000'')
       1700000000123 None (js ''7'')"
  note T = metadata_always_valid [of "js ''https://api.example''" "js ''http://localhost:3000''"
          1700000000123 None "js ''7''" "Some (js ''0xCD'')" example_env]
  have nf: "\<not> falsy (Some (js ''0xCD''))" by (simp add: falsy_def js_def)
  have api: "API_URL example_env = js ''https://api.example''"
    and base: "BASE_URL example_env = js ''http://localhost:3000''"
    and now: "Date_now example_env = 1700000000123"
    by (simp_all add: API_URL_def BASE_URL_def or_else_def example_env_def js_def)
  have lk: "findUploadedImage example_env (the (Some (js ''0xCD''))) = None"
    by (simp add: findUploadedImage_def example_env_def ascii_lower_def js_def Let_def)
  from T [THEN conjunct2, THEN conjunct1, THEN mp, OF nf]
  have r: "metadata_GET example_env (Some (js ''0xCD'')) (js ''7'') =
        \<lparr> status = 200,
          headers = [(''Content-Type'', ''application/json''),
                     (''Cache-Control'', ''no-cache, no-store, must-revalidate'')],
          body = JsonMetadata ?md \<rparr>"
    by (simp only: api base now lk)
  have v: "validateMetadata ?md" by (rule T [THEN conjunct1])
  from r v show ?thesis by simp
qed

text \<open>
  C7. A parameter is missing when it is absent or empty, which is what the handlers test.
  The query handler answers 400 exactly when the contract address or the token ID is
  missing, with the message that names the parameter; the path handler, whose token ID
  is the path segment, answers 400 exactly when the contract address is missing.
\<close>

theorem metadata_missing_parameter:
  "(status (metadata_query_GET e contractAddress tokenId) = 400
      \<longleftrightarrow> falsy contractAddress \<or> falsy tokenId) \<and>
   (falsy contractAddress \<longrightarrow>
      metadata_query_GET e contractAddress tokenId =
        \<lparr> status = 400, headers = [], body = JsonError (js ''Contract address is required'') \<rparr>) \<and>
   (\<not> falsy contractAddress \<and> falsy tokenId \<longrightarrow>
      metadata_query_GET e contractAddress tokenId =
        \<lparr> status = 400, headers = [], body = JsonError (js ''Token ID is required'') \<rparr>) \<and>
   (status (metadata_GET e contractAddress pathTokenId) = 400 \<longleftrightarrow> falsy contractAddress) \<and>
   (falsy contractAddress \<longrightarrow>
      metadata_GET e contractAddress pathTokenId =
        \<lparr> status = 400, headers = [], body = JsonError (js ''Contract address is required'') \<rparr>)"
proof -
  have a: "status (metadata_query_GET e contractAddress tokenId) = 400
      \<longleftrightarrow> falsy contractAddress \<or> falsy tokenId"
    by (cases "falsy contractAddress"; cases "falsy tokenId")
       (simp_all add: metadata_query_GET_ok, simp_all add: metadata_query_GET_def)
  have b: "status (metadata_GET e contractAddress pathTokenId) = 400 \<longleftrightarrow> falsy contractAddress"
    by (cases "falsy contractAddress")
       (simp_all add: metadata_GET_ok, simp_all add: metadata_GET_def)
  from a b show ?thesis
    by (simp add: metadata_query_GET_def metadata_GET_def)
qed

theorem metadata_missing_parameter_witness:
  "falsy (Some []) \<and> \<not> falsy (Some (js ''0xAB'')) \<and>
   status (metadata_query_GET example_env (Some (js ''0xAB'')) (Some [])) = 400 \<and>
   status (metadata_query_GET example_env None (Some (js ''1''))) = 400 \<and>
   status (metadata_query_GET example_env (Some (js ''0xAB'')) (Some (js ''1''))) \<noteq> 400 \<and>
   status (metadata_GET example_env (Some (js ''0xAB'')) (js ''1'')) \<noteq> 400"
proof -
  have f: "falsy (Some [])" "falsy None" "\<not> falsy (Some (js ''0xAB''))" "\<not> falsy (Some (js ''1''))"
    by (simp_all add: falsy_def js_def)
  show ?thesis
    using metadata_missing_parameter [of example_env "Some (js ''0xAB'')" "Some []"]
      metadata_missing_parameter [of example_env None "Some (js ''1'')"]
      metadata_missing_parameter [of example_env "Some (js ''0xAB'')" "Some (js ''1'')" "js ''1''"]
      f
    by simp
qed

lemma md_image_generated:
  "falsy u \<Longrightarrow> md_image (metadata_of apiUrl websiteUrl now u tokenId)
     = apiUrl @ js ''/api/image/'' @ tokenId"
  by (auto simp: metadata_of_def or_else_def falsy_def)

lemma md_image_uploaded:
  "url \<noteq> [] \<Longrightarrow> md_image (metadata_of apiUrl websiteUrl now (Some url) tokenId) = url"
  by (simp add: metadata_of_def or_else_def)

lemma image_type_attribute:
  "imageType (metadata_of apiUrl websiteUrl now u tokenId)
     = [JString (if \<not> falsy u then js ''Uploaded'' else js ''Generated'')]"
  by (simp add: imageType_def metadata_of_def js_def)

lemma serves_generated:
  assumes "address \<noteq> []" and "tokenId \<noteq> []" and "findUploadedImage e address = None"
  shows "serves (metadata_GET e (Some address) tokenId)
           (API_URL e @ js ''/api/image/'' @ tokenId) (js ''Generated'')"
    and "serves (metadata_query_GET e (Some address) (Some tokenId))
           (API_URL e @ js ''/api/image/'' @ tokenId) (js ''Generated'')"
  using assms metadata_GET_ok [of "Some address" e tokenId]
    metadata_query_GET_ok [of "Some address" "Some tokenId" e]
    md_image_generated [of None "API_URL e" "BASE_URL e" "Date_now e" tokenId]
  by (simp_all add: serves_def falsy_def image_type_attribute)

lemma serves_uploaded:
  assumes "address \<noteq> []" and "tokenId \<noteq> []" and "findUploadedImage e address = Some url"
    and "url \<noteq> []"
  shows "serves (metadata_GET e (Some address) tokenId) url (js ''Uploaded'')"
    and "serves (metadata_query_GET e (Some address) (Some tokenId)) url (js ''Uploaded'')"
  using assms metadata_GET_ok [of "Some address" e tokenId]
    metadata_query_GET_ok [of "Some address" "Some tokenId" e]
    md_image_uploaded [of url "API_URL e" "BASE_URL e" "Date_now e" tokenId]
  by (simp_all add: serves_def falsy_def image_type_attribute)

lemma findUploadedImage_None:
  assumes "\<not> getStorage e \<or> listAll e (js ''collections/'' @ toLowerCase e address) = None \<or>
     (\<exists>items. listAll e (js ''collections/'' @ toLowerCase e address) = Some items \<and>
        (List.find (\<lambda>item. startsWith (item_name item) (js ''collection-'')) items = None \<or>
         (\<exists>img. List.find (\<lambda>item. startsWith (item_name item) (js ''collection-'')) items
                  = Some img \<and>
                getDownloadURL e (fullPath img) = None)))"
  shows "findUploadedImage e address = None"
  using assms by (auto simp: findUploadedImage_def Let_def)

lemma findUploadedImage_Some:
  assumes "getStorage e"
    and "listAll e (js ''collections/'' @ toLowerCase e address) = Some items"
    and "List.find (\<lambda>item. startsWith (item_name item) (js ''collection-'')) items = Some img"
    and "getDownloadURL e (fullPath img) = Some url"
  shows "findUploadedImage e address = Some url"
  using assms by (simp add: findUploadedImage_def Let_def)

text \<open>
  C6. For a request with a contract address and a token ID: if the storage handle cannot
  be obtained, or the listing is rejected, or it holds no object whose name starts with
  \<open>collection-\<close>, or the URL of that object cannot be resolved, both handlers answer 200
  with the generated-image URL for the token ID as image and the image type
  \<open>Generated\<close>; if the first such object resolves to a non-empty URL, they answer 200 with
  that URL as image and the image type \<open>Uploaded\<close>.
\<close>

theorem metadata_image_source:
  "address \<noteq> [] \<and> tokenId \<noteq> [] \<longrightarrow>
     ((\<not> getStorage e \<or> listAll e (js ''collections/'' @ toLowerCase e address) = None \<or>
       (\<exists>items. listAll e (js ''collections/'' @ toLowerCase e address) = Some items \<and>
          (List.find (\<lambda>item. startsWith (item_name item) (js ''collection-'')) items = None \<or>
           (\<exists>img. List.find (\<lambda>item. startsWith (item_name item) (js ''collection-'')) items
                    = Some img \<and>
                  getDownloadURL e (fullPath img) = None))))
      \<longrightarrow> serves (metadata_GET e (Some address) tokenId)
            (API_URL e @ js ''/api/image/'' @ tokenId) (js ''Generated'') \<and>
          serves (metadata_query_GET e (Some address) (Some tokenId))
            (API_URL e @ js ''/api/image/'' @ tokenId) (js ''Generated'')) \<and>
     (\<forall>items img url.
        getStorage e \<and> listAll e (js ''collections/'' @ toLowerCase e address) = Some items \<and>
        List.find (\<lambda>item. startsWith (item_name item) (js ''collection-'')) items = Some img \<and>
        getDownloadURL e (fullPath img) = Some url \<and> url \<noteq> []
        \<longrightarrow> serves (metadata_GET e (Some address) tokenId) url (js ''Uploaded'') \<and>
            serves (metadata_query_GET e (Some address) (Some tokenId)) url (js ''Uploaded''))"
proof (intro impI conjI allI; elim conjE)
  assume ne: "address \<noteq> []" "tokenId \<noteq> []"
  {
    assume "\<not> getStorage e \<or> listAll e (js ''collections/'' @ toLowerCase e address) = None \<or>
       (\<exists>items. listAll e (js ''collections/'' @ toLowerCase e address) = Some items \<and>
          (List.find (\<lambda>item. startsWith (item_name item) (js ''collection-'')) items = None \<or>
           (\<exists>img. List.find (\<lambda>item. startsWith (item_name item) (js ''collection-'')) items
                    = Some img \<and>
                  getDownloadURL e (fullPath img) = None)))"
    then have n: "findUploadedImage e address = None" by (rule findUploadedImage_None)
    from ne n show "serves (metadata_GET e (Some address) tokenId)
            (API_URL e @ js ''/api/image/'' @ tokenId) (js ''Generated'')"
      by (rule serves_generated)
    from ne n show "serves (metadata_query_GET e (Some address) (Some tokenId))
            (API_URL e @ js ''/api/image/'' @ tokenId) (js ''Generated'')"
      by (rule serves_generated)
  }
  fix items img url
  assume "getStorage e" "listAll e (js ''collections/'' @ toLowerCase e address) = Some items"
    "List.find (\<lambda>item. startsWith (item_name item) (js ''collection-'')) items = Some img"
    "getDownloadURL e (fullPath img) = Some url"
  then have s: "findUploadedImage e address = Some url" by (rule findUploadedImage_Some)
  assume u: "url \<noteq> []"
  from ne s u show "serves (metadata_GET e (Some address) tokenId) url (js ''Uploaded'')"
    by (rule serves_uploaded)
  from ne s u show "serves (metadata_query_GET e (Some address) (Some tokenId)) url (js ''Uploaded'')"
    by (rule serves_uploaded)
qed

lemma example_lower: "toLowerCase example_env (js ''0xAB'') = js ''0xab''"
  "toLowerCase example_env (js ''0xCD'') = js ''0xcd''"
  by (simp_all add: example_env_def ascii_lower_def js_def)

theorem metadata_image_source_witness:
  "serves (metadata_GET example_env (Some (js ''0xAB'')) (js ''7''))
     (js ''https://cdn.example/collections/0xab/collection-cat.png'') (js ''Uploaded'') \<and>
   serves (metadata_query_GET example_env (Some (js ''0xCD'')) (Some (js ''7'')))
     (js ''https://api.example/api/image/7'') (js ''Generated'')"
proof -
  let ?img = "\<lparr> item_name = js ''collection-cat.png'',
                fullPath = js ''collections/0xab/collection-cat.png'' \<rparr>"
  let ?items = "[\<lparr> item_name = js ''notes.txt'', fullPath = js ''collections/0xab/notes.txt'' \<rparr>,
                 ?img]"
  have ne: "js ''0xAB'' \<noteq> [] \<and> js ''0xCD'' \<noteq> [] \<and> js ''7'' \<noteq> []" by (simp add: js_def)
  have st: "getStorage example_env" by (simp add: example_env_def)
  have l1: "listAll example_env (js ''collections/'' @ toLowerCase example_env (js ''0xAB''))
              = Some ?items"
    by (simp add: example_lower) (simp add: example_env_def js_def)
  have f1: "List.find (\<lambda>item. startsWith (item_name item) (js ''collection-'')) ?items = Some ?img"
    by (simp add: startsWith_def js_def)
  have d1: "getDownloadURL example_env (fullPath ?img)
              = Some (js ''https://cdn.example/collections/0xab/collection-cat.png'')"
    by (simp add: example_env_def js_def)
  have u1: "js ''https://cdn.example/collections/0xab/collection-cat.png'' \<noteq> []"
    by (simp add: js_def)
  have l2: "listAll example_env (js ''collections/'' @ toLowerCase example_env (js ''0xCD'')) = None"
    by (simp add: example_lower) (simp add: example_env_def js_def)
  have api: "API_URL example_env @ js ''/api/image/'' @ js ''7'' = js ''https://api.example/api/image/7''"
    by (simp add: API_URL_def or_else_def example_env_def js_def)
  have ne1: "js ''0xAB'' \<noteq> [] \<and> js ''7'' \<noteq> []" and ne2: "js ''0xCD'' \<noteq> [] \<and> js ''7'' \<noteq> []"
    using ne by simp_all
  have a: "serves (metadata_GET example_env (Some (js ''0xAB'')) (js ''7''))
     (js ''https://cdn.example/collections/0xab/collection-cat.png'') (js ''Uploaded'')"
    by (rule metadata_image_source [of "js ''0xAB''" "js ''7''" example_env,
          THEN mp, OF ne1, THEN conjunct2, rule_format, OF conjI, OF st conjI, OF l1 conjI,
          OF f1 conjI, OF d1 u1, THEN conjunct1])
  have "serves (metadata_query_GET example_env (Some (js ''0xCD'')) (Some (js ''7'')))
     (API_URL example_env @ js ''/api/image/'' @ js ''7'') (js ''Generated'')"
    by (rule metadata_image_source [of "js ''0xCD''" "js ''7''" example_env,
          THEN mp, OF ne2, THEN conjunct1, THEN mp, OF disjI2, OF disjI1, OF l2, THEN conjunct2])
  with a show ?thesis by (simp only: api) 
qed

lemma directives_no_store:
  "directives ''no-cache, no-store, must-revalidate'' = [''no-cache'', ''no-store'', ''must-revalidate'']"
  by (simp add: directives_def)

lemma directives_immutable:
  "directives ''public, max-age=31536000, immutable'' = [''public'', ''max-age=31536000'', ''immutable'']"
  by (simp add: directives_def)

text \<open>
  C8. Every response of a metadata handler with status 200 carries the cache directive
  \<open>no-store\<close>. Every response of the image handler has status 200, the content type
  \<open>image/svg+xml\<close> and the cache directives \<open>public\<close>, \<open>max-age=31536000\<close> (one year in
  seconds) and \<open>immutable\<close>.
\<close>

theorem cache_control:
  "(status (metadata_GET e contractAddress tokenId) = 200 \<longrightarrow>
      ''no-store'' \<in> set (cache_directives (metadata_GET e contractAddress tokenId))) \<and>
   (status (metadata_query_GET e contractAddress queryTokenId) = 200 \<longrightarrow>
      ''no-store'' \<in> set (cache_directives (metadata_query_GET e contractAddress queryTokenId))) \<and>
   status (image_GET coord tokenId) = 200 \<and>
   map_of (headers (image_GET coord tokenId)) ''Content-Type'' = Some ''image/svg+xml'' \<and>
   cache_directives (image_GET coord tokenId) = [''public'', ''max-age=31536000'', ''immutable''] \<and>
   fromDecimal ''31536000'' = 365 * 24 * 60 * 60"
proof -
  have a: "''no-store'' \<in> set (cache_directives (metadata_GET e contractAddress tokenId))"
    if "status (metadata_GET e contractAddress tokenId) = 200"
  proof (cases "falsy contractAddress")
    case True
    with that show ?thesis by (simp add: metadata_GET_def)
  next
    case False
    then show ?thesis
      by (simp add: metadata_GET_ok cache_directives_def directives_no_store)
  qed
  have b: "''no-store'' \<in> set (cache_directives (metadata_query_GET e contractAddress queryTokenId))"
    if "status (metadata_query_GET e contractAddress queryTokenId) = 200"
  proof (cases "falsy contractAddress \<or> falsy queryTokenId")
    case True
    with that show ?thesis by (auto simp: metadata_query_GET_def)
  next
    case False
    then show ?thesis
      by (simp add: metadata_query_GET_ok cache_directives_def directives_no_store)
  qed
  have c: "cache_directives (image_GET coord tokenId) = [''public'', ''max-age=31536000'', ''immutable'']"
    by (simp add: image_GET_def cache_directives_def directives_immutable)
  have d: "fromDecimal ''31536000'' = 365 * 24 * 60 * 60"
    by (simp add: fromDecimal_def digitValue_def)
  from a b c d show ?thesis by (simp add: image_GET_def)
qed

theorem cache_control_witness:
  "status (metadata_GET example_env (Some (js ''0xAB'')) (js ''7'')) = 200 \<and>
   ''no-store'' \<in> set (cache_directives (metadata_GET example_env (Some (js ''0xAB'')) (js ''7''))) \<and>
   status (metadata_query_GET example_env (Some (js ''0xAB'')) (Some (js ''7''))) = 200 \<and>
   ''no-store'' \<in> set (cache_directives
      (metadata_query_GET example_env (Some (js ''0xAB'')) (Some (js ''7''))))"
proof -
  have f: "\<not> falsy (Some (js ''0xAB''))" "\<not> falsy (Some (js ''7''))"
    by (simp_all add: falsy_def js_def)
  then have s: "status (metadata_GET example_env (Some (js ''0xAB'')) (js ''7'')) = 200"
     "status (metadata_query_GET example_env (Some (js ''0xAB'')) (Some (js ''7''))) = 200"
    by (simp_all add: metadata_GET_ok metadata_query_GET_ok)
  from s cache_control [of example_env "Some (js ''0xAB'')" "js ''7''" "Some (js ''7'')",
         THEN conjunct1, THEN mp, OF s(1)]
       cache_control [of example_env "Some (js ''0xAB'')" "js ''7''" "Some (js ''7'')",
         THEN conjunct2, THEN conjunct1, THEN mp, OF s(2)]
  show ?thesis by (intro conjI)
qed

section \<open>Properties of the upload endpoint\<close>

lemma split_on_not_Nil: "split_on sep xs \<noteq> []"
  by (induction xs) (auto split: list.splits)

lemma split_on_single: "sep \<notin> set ys \<Longrightarrow> split_on sep ys = [ys]"
  by (induction ys) auto

lemma split_on_append_sep:
  "split_on sep (xs @ sep # ys) = split_on sep xs @ split_on sep ys"
proof (induction xs)
  case Nil
  then show ?case by simp
next
  case (Cons x xs)
  then show ?case
    using split_on_not_Nil [of sep xs] by (cases "split_on sep xs") auto
qed

lemma split_on_append:
  "sep \<notin> set ys \<Longrightarrow> split_on sep (xs @ sep # ys) = split_on sep xs @ [ys]"
  by (simp add: split_on_append_sep split_on_single)

lemma split_on_sep_free: "s \<in> set (split_on sep xs) \<Longrightarrow> sep \<notin> set s"
proof (induction xs arbitrary: s)
  case Nil
  then show ?case by simp
next
  case (Cons x xs)
  show ?case
  proof (cases "x = sep")
    case True
    with Cons show ?thesis by auto
  next
    case False
    obtain y ys where y: "split_on sep xs = y # ys"
      using split_on_not_Nil [of sep xs] by (cases "split_on sep xs") auto
    with False Cons.prems have "s = x # y \<or> s \<in> set ys" by simp
    then show ?thesis
    proof
      assume "s = x # y"
      moreover have "sep \<notin> set y" using Cons.IH [of y] y by simp
      ultimately show ?thesis using False by auto
    next
      assume "s \<in> set ys"
      then show ?thesis using Cons.IH [of s] y by simp
    qed
  qed
qed

lemma join_with_Cons:
  "components \<noteq> [] \<Longrightarrow>
   join_with sep (component # components) = component @ sep # join_with sep components"
  by (cases components) simp_all

lemma join_split_on: "join_with sep (split_on sep xs) = xs"
proof (induction xs)
  case Nil
  then show ?case by simp
next
  case (Cons x xs)
  obtain y ys where y: "split_on sep xs = y # ys"
    using split_on_not_Nil [of sep xs] by (cases "split_on sep xs") auto
  show ?case
  proof (cases "x = sep")
    case True
    then show ?thesis using Cons split_on_not_Nil [of sep xs] by (simp add: join_with_Cons)
  next
    case False
    with Cons y show ?thesis by (cases ys) simp_all
  qed
qed

lemma split_on_join:
  "components \<noteq> [] \<Longrightarrow> (\<And>s. s \<in> set components \<Longrightarrow> sep \<notin> set s) \<Longrightarrow>
   split_on sep (join_with sep components) = components"
proof (induction components)
  case Nil
  then show ?case by simp
next
  case (Cons c cs)
  show ?case
  proof (cases cs)
    case Nil
    with Cons.prems show ?thesis by (simp add: split_on_single)
  next
    case (Cons d ds)
    then have ne: "cs \<noteq> []" by simp
    have c: "sep \<notin> set c" using Cons.prems(2) by simp
    have "split_on sep (join_with sep (c # cs)) = split_on sep (c @ sep # join_with sep cs)"
      using ne by (simp add: join_with_Cons)
    also have "\<dots> = split_on sep c @ split_on sep (join_with sep cs)"
      by (rule split_on_append_sep)
    also have "\<dots> = [c] @ cs"
      using c ne Cons.IH Cons.prems(2) by (simp add: split_on_single)
    finally show ?thesis by simp
  qed
qed

lemma ref_fullPath_segments:
  assumes "sep = of_char CHR ''/''" and "sep \<notin> set last_segment" and "last_segment \<noteq> []"
  shows "split_on sep (ref_fullPath (base @ sep # last_segment))
           = filter (\<lambda>component. component \<noteq> []) (split_on sep base) @ [last_segment]"
proof -
  let ?kept = "filter (\<lambda>component. component \<noteq> []) (split_on sep base) @ [last_segment]"
  have "filter (\<lambda>component. length component > 0) (split_on sep (base @ sep # last_segment))
          = ?kept"
    using assms(2,3) by (simp add: split_on_append)
  then have "ref_fullPath (base @ sep # last_segment) = join_with sep ?kept"
    unfolding ref_fullPath_def assms(1) by simp
  moreover have "split_on sep (join_with sep ?kept) = ?kept"
  proof (rule split_on_join)
    show "?kept \<noteq> []" by simp
    fix s assume "s \<in> set ?kept"
    then show "sep \<notin> set s" using assms(2) split_on_sep_free [of s sep base] by auto
  qed
  ultimately show ?thesis by simp
qed

lemma ref_fullPath_id:
  "[] \<notin> set (split_on (of_char CHR ''/'') path) \<Longrightarrow> ref_fullPath path = path"
proof -
  assume "[] \<notin> set (split_on (of_char CHR ''/'') path)"
  then have "filter (\<lambda>component. length component > 0) (split_on (of_char CHR ''/'') path)
               = split_on (of_char CHR ''/'') path"
    by (auto simp: filter_id_conv)
  then show ?thesis by (simp add: ref_fullPath_def join_split_on)
qed

lemma allowed_sanitize: "c \<in> set (sanitize fileName) \<Longrightarrow> allowed c"
  by (simp add: sanitize_def)

lemma slash_not_allowed: "\<not> allowed (of_char CHR ''/'')"
  by (simp add: allowed_def)

lemma filename_no_slash: "of_char CHR ''/'' \<notin> set (js ''collection-'' @ sanitize fileName)"
proof -
  have "of_char CHR ''/'' \<notin> set (sanitize fileName)"
    using allowed_sanitize slash_not_allowed by blast
  then show ?thesis by (simp add: js_def)
qed

lemma storagePath_eq:
  "storagePath e address fileName =
     (js ''collections/'' @ toLowerCase e address) @ of_char CHR ''/'' #
     (js ''collection-'' @ sanitize fileName)"
  by (simp add: storagePath_def Let_def js_def)

lemma upload_POST_200:
  assumes "status (fst (upload_POST e file tokenId contractAddress)) = 200"
  shows "\<exists>f address url.
           file = Some (FormFile f) \<and> contractAddress = Some (FormString address) \<and>
           address \<noteq> [] \<and> startsWith (file_type f) (js ''image/'') \<and>
           upload_POST e file tokenId contractAddress =
             (\<lparr> status = 200, headers = [],
                body = JsonUploaded url (ref_fullPath (storagePath e address (file_name f))) \<rparr>,
              Some (ref_fullPath (storagePath e address (file_name f)), f))"
proof (cases "file")
  case None
  with assms show ?thesis by (simp add: upload_POST_def)
next
  case (Some fe)
  show ?thesis
  proof (cases fe)
    case (FormString v)
    with Some assms show ?thesis by (simp add: upload_POST_def split: if_splits)
  next
    case (FormFile f)
    note ff = this
    show ?thesis
    proof (cases contractAddress)
      case None
      with Some ff assms show ?thesis by (simp add: upload_POST_def)
    next
      case (Some ce)
      note sc = this
      show ?thesis
      proof (cases ce)
        case (FormString address)
        with \<open>file = Some fe\<close> ff sc assms show ?thesis
          by (simp add: upload_POST_def Let_def split: if_splits option.splits)
      next
        case (FormFile g)
        with \<open>file = Some fe\<close> ff sc assms show ?thesis
          by (simp add: upload_POST_def split: if_splits)
      qed
    qed
  qed
qed

text \<open>
  The contract address \<open>0xAB/\<close> of the form ends with a slash. The handler answers 200;
  the path it builds is \<open>collections/0xab//collection-....MyCat1.png\<close>, and the object is
  stored at \<open>collections/0xab/collection-....MyCat1.png\<close>.
\<close>

theorem upload_storage_path_counterexample:
  "status (fst (upload_POST example_env (Some (FormFile example_file)) None
                  (Some (FormString (js ''0xAB/''))))) = 200 \<and>
   snd (upload_POST example_env (Some (FormFile example_file)) None
          (Some (FormString (js ''0xAB/''))))
     = Some (js ''collections/0xab/collection-....MyCat1.png'', example_file) \<and>
   js ''collections/'' @ toLowerCase example_env (js ''0xAB/'') @ js ''/collection-''
       @ sanitize (file_name example_file)
     = js ''collections/0xab//collection-....MyCat1.png''"
proof -
  have ty: "startsWith (file_type example_file) (js ''image/'')"
    by (simp add: example_file_def startsWith_def js_def)
  have env: "getStorage example_env" "\<And>p. uploadBytes example_env p"
    "\<And>p. getDownloadURL example_env p = Some (js ''https://cdn.example/'' @ p)"
    by (simp_all add: example_env_def)
  have ne: "js ''0xAB/'' \<noteq> []" by (simp add: js_def)
  have raw: "storagePath example_env (js ''0xAB/'') (file_name example_file)
               = js ''collections/0xab//collection-....MyCat1.png''"
    by (simp add: storagePath_def sanitize_def allowed_def Let_def example_file_def
          example_env_def ascii_lower_def js_def)
  have full: "ref_fullPath (js ''collections/0xab//collection-....MyCat1.png'')
                = js ''collections/0xab/collection-....MyCat1.png''"
    by (simp add: ref_fullPath_def js_def)
  have a: "status (fst (upload_POST example_env (Some (FormFile example_file)) None
                  (Some (FormString (js ''0xAB/''))))) = 200"
    by (simp add: upload_POST_def Let_def ty env ne)
  have b: "snd (upload_POST example_env (Some (FormFile example_file)) None
          (Some (FormString (js ''0xAB/''))))
     = Some (js ''collections/0xab/collection-....MyCat1.png'', example_file)"
    by (simp add: upload_POST_def Let_def ty env ne raw full)
  have c: "js ''collections/'' @ toLowerCase example_env (js ''0xAB/'') @ js ''/collection-''
       @ sanitize (file_name example_file)
     = js ''collections/0xab//collection-....MyCat1.png''"
    by (simp add: sanitize_def allowed_def example_file_def example_env_def ascii_lower_def
          js_def)
  from a b c show ?thesis by (intro conjI)
qed

text \<open>
  C10, amended. When the upload handler answers 200, the file field is a file of an
  image type, the contract address is a non-empty string, and the path the handler hands
  to the asset store is exactly \<open>collections/\<close>, the lower-cased contract address,
  \<open>/collection-\<close> and the sanitized file name. The object is stored at the full path of
  the reference made from that path, which drops its empty segments: it is the path
  itself whenever the lower-cased contract address has no empty segment. The sanitized
  file name keeps exactly the code units of the file name that are in \<open>[a-zA-Z0-9.-]\<close>;
  it holds no slash, so the stored path consists of the non-empty segments of
  \<open>collections/<address>\<close> followed by the one segment \<open>collection-<sanitized name>\<close>,
  whatever the file name is.
\<close>

theorem upload_storage_path:
  "(status (fst (upload_POST e file tokenId contractAddress)) = 200 \<longrightarrow>
      (\<exists>f address url.
         file = Some (FormFile f) \<and> contractAddress = Some (FormString address) \<and>
         address \<noteq> [] \<and> startsWith (file_type f) (js ''image/'') \<and>
         upload_POST e file tokenId contractAddress =
           (\<lparr> status = 200, headers = [],
              body = JsonUploaded url (ref_fullPath (storagePath e address (file_name f))) \<rparr>,
            Some (ref_fullPath (storagePath e address (file_name f)), f)))) \<and>
   storagePath e address fileName =
     js ''collections/'' @ toLowerCase e address @ js ''/collection-'' @ sanitize fileName \<and>
   sanitize fileName = filter allowed fileName \<and>
   (\<forall>c \<in> set (sanitize fileName). allowed c) \<and>
   \<not> allowed (of_char CHR ''/'') \<and>
   split_on (of_char CHR ''/'') (storagePath e address fileName) =
     split_on (of_char CHR ''/'') (js ''collections/'' @ toLowerCase e address)
       @ [js ''collection-'' @ sanitize fileName] \<and>
   split_on (of_char CHR ''/'') (ref_fullPath (storagePath e address fileName)) =
     filter (\<lambda>component. component \<noteq> [])
       (split_on (of_char CHR ''/'') (js ''collections/'' @ toLowerCase e address))
       @ [js ''collection-'' @ sanitize fileName] \<and>
   ([] \<notin> set (split_on (of_char CHR ''/'') (toLowerCase e address)) \<longrightarrow>
      ref_fullPath (storagePath e address fileName) = storagePath e address fileName)"
proof -
  let ?sep = "of_char CHR ''/'' :: 16 word"
  let ?last = "js ''collection-'' @ sanitize fileName"
  have a: "storagePath e address fileName =
     js ''collections/'' @ toLowerCase e address @ js ''/collection-'' @ sanitize fileName"
    by (simp add: storagePath_def Let_def js_def)
  have b: "split_on ?sep (storagePath e address fileName) =
     split_on ?sep (js ''collections/'' @ toLowerCase e address) @ [?last]"
    unfolding storagePath_eq using filename_no_slash by (rule split_on_append)
  have last_ne: "?last \<noteq> []" by (simp add: js_def)
  have b': "split_on ?sep (ref_fullPath (storagePath e address fileName)) =
     filter (\<lambda>component. component \<noteq> [])
       (split_on ?sep (js ''collections/'' @ toLowerCase e address)) @ [?last]"
    unfolding storagePath_eq
    by (rule ref_fullPath_segments [OF refl filename_no_slash last_ne])
  have c: "\<forall>c \<in> set (sanitize fileName). allowed c"
    using allowed_sanitize by blast
  have d: "status (fst (upload_POST e file tokenId contractAddress)) = 200 \<longrightarrow>
      (\<exists>f address url.
         file = Some (FormFile f) \<and> contractAddress = Some (FormString address) \<and>
         address \<noteq> [] \<and> startsWith (file_type f) (js ''image/'') \<and>
         upload_POST e file tokenId contractAddress =
           (\<lparr> status = 200, headers = [],
              body = JsonUploaded url (ref_fullPath (storagePath e address (file_name f))) \<rparr>,
            Some (ref_fullPath (storagePath e address (file_name f)), f)))"
    by (rule impI) (rule upload_POST_200)
  have s: "sanitize fileName = filter allowed fileName" by (simp add: sanitize_def)
  have i: "[] \<notin> set (split_on ?sep (toLowerCase e address)) \<longrightarrow>
      ref_fullPath (storagePath e address fileName) = storagePath e address fileName"
  proof
    assume n: "[] \<notin> set (split_on ?sep (toLowerCase e address))"
    have "split_on ?sep (js ''collections/'' @ toLowerCase e address)
            = split_on ?sep (js ''collections'' @ ?sep # toLowerCase e address)"
      by (simp add: js_def)
    also have "\<dots> = split_on ?sep (js ''collections'') @ split_on ?sep (toLowerCase e address)"
      by (rule split_on_append_sep)
    also have "split_on ?sep (js ''collections'') = [js ''collections'']"
      by (rule split_on_single) (simp add: js_def)
    finally have "[] \<notin> set (split_on ?sep (js ''collections/'' @ toLowerCase e address))"
      using n by (simp add: js_def)
    with last_ne have "[] \<notin> set (split_on ?sep (storagePath e address fileName))"
      unfolding b by simp
    then show "ref_fullPath (storagePath e address fileName) = storagePath e address fileName"
      by (rule ref_fullPath_id)
  qed
  from d a s c slash_not_allowed b b' i show ?thesis by (intro conjI)
qed

text \<open>
  A file named \<open>../../My Cat (1).png\<close> for the contract address \<open>0xAB\<close>: the handler
  answers 200 and the object is stored in three segments.
\<close>

theorem upload_storage_path_witness:
  "status (fst (upload_POST example_env (Some (FormFile example_file)) None
                  (Some (FormString (js ''0xAB''))))) = 200 \<and>
   snd (upload_POST example_env (Some (FormFile example_file)) None
          (Some (FormString (js ''0xAB''))))
     = Some (js ''collections/0xab/collection-....MyCat1.png'', example_file) \<and>
   split_on (of_char CHR ''/'') (js ''collections/0xab/collection-....MyCat1.png'')
     = [js ''collections'', js ''0xab'', js ''collection-....MyCat1.png'']"
proof -
  let ?r = "upload_POST example_env (Some (FormFile example_file)) None
              (Some (FormString (js ''0xAB'')))"
  note T = upload_storage_path [of example_env "Some (FormFile example_file)" None
         "Some (FormString (js ''0xAB''))" "js ''0xAB''" "file_name example_file"]
  have ty: "startsWith (file_type example_file) (js ''image/'')"
    by (simp add: example_file_def startsWith_def js_def)
  have env: "getStorage example_env" "\<And>p. uploadBytes example_env p"
    "\<And>p. getDownloadURL example_env p = Some (js ''https://cdn.example/'' @ p)"
    by (simp_all add: example_env_def)
  have ne: "js ''0xAB'' \<noteq> []" by (simp add: js_def)
  have st: "status (fst ?r) = 200"
    by (simp add: upload_POST_def Let_def ty env ne)
  have path: "storagePath example_env (js ''0xAB'') (file_name example_file)
                = js ''collections/0xab/collection-....MyCat1.png''"
    by (simp add: storagePath_def sanitize_def allowed_def Let_def example_file_def
          example_env_def ascii_lower_def js_def)
  have seg: "[] \<notin> set (split_on (of_char CHR ''/'') (toLowerCase example_env (js ''0xAB'')))"
    by (simp add: example_env_def ascii_lower_def js_def)
  from T seg have full: "ref_fullPath (storagePath example_env (js ''0xAB'') (file_name example_file))
      = storagePath example_env (js ''0xAB'') (file_name example_file)"
    by (elim conjE) (erule mp)
  from T [THEN conjunct1, THEN mp, OF st]
  obtain f address url where f: "Some (FormFile example_file) = Some (FormFile f)"
    and a: "Some (FormString (js ''0xAB'')) = Some (FormString address)"
    and r: "?r = (\<lparr> status = 200, headers = [],
                 body = JsonUploaded url (ref_fullPath (storagePath example_env address (file_name f))) \<rparr>,
               Some (ref_fullPath (storagePath example_env address (file_name f)), f))"
    by blast
  from f a have "f = example_file" and "address = js ''0xAB''" by simp_all
  with r have "snd ?r
      = Some (ref_fullPath (storagePath example_env (js ''0xAB'') (file_name example_file)),
              example_file)"
    by simp
  moreover have "ref_fullPath (js ''collections/0xab/collection-....MyCat1.png'')
                   = js ''collections/0xab/collection-....MyCat1.png''"
    using full unfolding path .
  ultimately have w:
    "snd ?r = Some (js ''collections/0xab/collection-....MyCat1.png'', example_file)"
    by (simp only: path)
  have "split_on (of_char CHR ''/'')
          (storagePath example_env (js ''0xAB'') (file_name example_file))
        = split_on (of_char CHR ''/'') (js ''collections/'' @ toLowerCase example_env (js ''0xAB''))
            @ [js ''collection-'' @ sanitize (file_name example_file)]"
    using T by (elim conjE)
  then have sp: "split_on (of_char CHR ''/'') (js ''collections/0xab/collection-....MyCat1.png'')
     = [js ''collections'', js ''0xab'', js ''collection-....MyCat1.png'']"
    unfolding path
    by (simp add: sanitize_def allowed_def example_file_def example_env_def ascii_lower_def js_def)
  from st w sp show ?thesis by (intro conjI)
qed

end
